theory Spec2Isabelle
  imports Main
begin

section \<open>String helpers of the Go standard library\<close>

text \<open>
  Go strings are byte sequences; they are modelled as \<open>string\<close> (a list of
  \<open>char\<close>), and \<open>len\<close> is \<open>length\<close>. The helpers below are the functions of
  package \<open>strings\<close> that the commands call.
\<close>

abbreviation NL :: char where "NL \<equiv> CHR 0x0A"
abbreviation TAB :: char where "TAB \<equiv> CHR 0x09"

text \<open>\<open>strings.HasPrefix(s, p)\<close>\<close>

fun hasPrefix :: "string \<Rightarrow> string \<Rightarrow> bool" where
  "hasPrefix s [] = True"
| "hasPrefix [] (p # ps) = False"
| "hasPrefix (c # cs) (p # ps) = (c = p \<and> hasPrefix cs ps)"

text \<open>\<open>strings.TrimPrefix(s, p)\<close>\<close>

definition trimPrefix :: "string \<Rightarrow> string \<Rightarrow> string" where
  "trimPrefix s p = (if hasPrefix s p then drop (length p) s else s)"



text \<open>
  \<open>strings.Split(s, sep)\<close> for a separator of one byte: the result always has at
  least one element, and \<open>n\<close> separators give \<open>n + 1\<close> parts.
\<close>

fun split :: "string \<Rightarrow> char \<Rightarrow> string list" where
  "split [] sep = [[]]"
| "split (c # cs) sep =
     (if c = sep then [] # split cs sep
      else (let r = split cs sep in (c # hd r) # tl r))"

text \<open>
  \<open>strings.TrimSpace(s)\<close>, on the ASCII white space (tab, line feed, vertical
  tab, form feed, carriage return, space); the white space of Unicode outside
  ASCII is not modelled.
\<close>

definition isSpace :: "char \<Rightarrow> bool" where
  "isSpace c = (c = TAB \<or> c = NL \<or> c = CHR 0x0B \<or> c = CHR 0x0C \<or> c = CHR 0x0D \<or> c = CHR '' '')"

definition trimSpace :: "string \<Rightarrow> string" where
  "trimSpace s = rev (dropWhile isSpace (rev (dropWhile isSpace s)))"

text \<open>\<open>strings.ToLower(s)\<close>, on the ASCII letters.\<close>

definition lowerChar :: "char \<Rightarrow> char" where
  "lowerChar c =
     (let n = of_char c :: nat in if 65 \<le> n \<and> n \<le> 90 then char_of (n + 32) else c)"

definition toLower :: "string \<Rightarrow> string" where
  "toLower s = map lowerChar s"

text \<open>\<open>strings.Join(elems, sep)\<close>\<close>

fun joinWith :: "string list \<Rightarrow> string \<Rightarrow> string" where
  "joinWith [] sep = []"
| "joinWith [e] sep = e"
| "joinWith (e # es) sep = e @ sep @ joinWith es sep"

text \<open>\<open>strings.Count(s, sub)\<close> for a \<open>sub\<close> that cannot overlap itself: the positions where \<open>sub\<close> starts.\<close>

fun countOcc :: "string \<Rightarrow> string \<Rightarrow> nat" where
  "countOcc [] sub = 0"
| "countOcc (c # cs) sub = (if hasPrefix (c # cs) sub then 1 else 0) + countOcc cs sub"

section \<open>Paths (path/filepath, Unix)\<close>

text \<open>
  \<open>filepath.Clean\<close>: the path is cut at the slashes, empty elements and
  \<open>.\<close> are dropped, \<open>..\<close> removes the element before it (below the root it
  is dropped, at the start of a relative path it is kept), and the empty result
  is \<open>.\<close>.
\<close>

fun cleanStep :: "bool \<Rightarrow> string list \<Rightarrow> string \<Rightarrow> string list" where
  "cleanStep rooted stack el =
     (if el = [] \<or> el = ''.'' then stack
      else if el = ''..'' then
        (if stack \<noteq> [] \<and> last stack \<noteq> ''..'' then butlast stack
         else if rooted then stack
         else stack @ [el])
      else stack @ [el])"

definition pathClean :: "string \<Rightarrow> string" where
  "pathClean path =
     (let rooted = hasPrefix path ''/'';
          stack = foldl (cleanStep rooted) [] (split path (CHR ''/''));
          out = (if rooted then ''/'' else []) @ joinWith stack ''/''
      in if out = [] then ''.'' else out)"

text \<open>\<open>filepath.Join\<close>: empty elements are ignored, the rest is joined and cleaned.\<close>

definition pathJoin :: "string list \<Rightarrow> string" where
  "pathJoin elems =
     (let es = filter (\<lambda>e. e \<noteq> []) elems
      in if es = [] then [] else pathClean (joinWith es ''/''))"

text \<open>\<open>filepath.Dir\<close>: the path up to its last slash, cleaned.\<close>

definition pathDir :: "string \<Rightarrow> string" where
  "pathDir path = pathClean (rev (dropWhile (\<lambda>c. c \<noteq> CHR ''/'') (rev path)))"

section \<open>The environment: file system, home directory, external tools\<close>

text \<open>
  A path names a directory or a regular file, each with its permission bits
  (as requested at creation, before the umask). The name space is flat: a
  directory does not list its entries, and creating a file does not need its
  parent. \<open>denied\<close> holds the paths the operating system refuses to the
  process (permission errors).
\<close>

datatype node = Dir nat | File nat string

text \<open>Permission bits, written as the three octal digits of the source: \<open>0755\<close> is \<open>mode 7 5 5\<close>.\<close>

definition mode :: "nat \<Rightarrow> nat \<Rightarrow> nat \<Rightarrow> nat" where
  "mode usr grp oth = 64 * usr + 8 * grp + oth"

datatype oserr = ErrNotExist | ErrPermission | ErrIsDir | ErrNotDir

text \<open>
  The external tools are part of the environment. \<open>gitOK\<close> says which
  invocations of git exit with status 0; git's configuration is a store of
  values by key, one global and one for each repository. \<open>sshKeygen\<close> is
  what ssh-keygen does to the file system for its argument list, with its exit
  status (\<open>True\<close> for 0). \<open>keygenCalls\<close> records the argument list of every
  run of ssh-keygen the program starts, in order.
\<close>

record world =
  fs :: "string \<Rightarrow> node option"
  denied :: "string \<Rightarrow> bool"
  home :: "string option"
  cwd :: string
  gitOK :: "string list \<Rightarrow> bool"
  gitGlobal :: "string \<Rightarrow> string option"
  gitLocal :: "string \<Rightarrow> string \<Rightarrow> string option"
  sshKeygen :: "string list \<Rightarrow> (string \<Rightarrow> node option) \<Rightarrow> bool \<times> (string \<Rightarrow> node option)"
  keygenCalls :: "string list list"

text \<open>\<open>os.Stat\<close>\<close>

definition osStat :: "world \<Rightarrow> string \<Rightarrow> oserr + node" where
  "osStat w p =
     (if denied w p then Inl ErrPermission
      else case fs w p of None \<Rightarrow> Inl ErrNotExist | Some n \<Rightarrow> Inr n)"

text \<open>\<open>os.IsNotExist(err)\<close>, on the result of a call.\<close>

definition isNotExist :: "oserr + 'a \<Rightarrow> bool" where
  "isNotExist r = (case r of Inl e \<Rightarrow> e = ErrNotExist | Inr _ \<Rightarrow> False)"

text \<open>\<open>os.ReadFile\<close>\<close>

definition osReadFile :: "world \<Rightarrow> string \<Rightarrow> oserr + string" where
  "osReadFile w p =
     (if denied w p then Inl ErrPermission
      else case fs w p of
             None \<Rightarrow> Inl ErrNotExist
           | Some (Dir m) \<Rightarrow> Inl ErrIsDir
           | Some (File m c) \<Rightarrow> Inr c)"

text \<open>\<open>os.WriteFile(p, data, perm)\<close>: creates the file with \<open>perm\<close> or truncates it.\<close>

definition osWriteFile :: "world \<Rightarrow> string \<Rightarrow> string \<Rightarrow> nat \<Rightarrow> oserr + world" where
  "osWriteFile w p data perm =
     (if denied w p then Inl ErrPermission
      else case fs w p of
             None \<Rightarrow> Inr (w\<lparr>fs := (fs w)(p \<mapsto> File perm data)\<rparr>)
           | Some (Dir m) \<Rightarrow> Inl ErrIsDir
           | Some (File m c) \<Rightarrow> Inr (w\<lparr>fs := (fs w)(p \<mapsto> File m data)\<rparr>))"

text \<open>
  \<open>os.OpenFile(p, O_APPEND|O_CREATE|O_WRONLY, perm)\<close> followed by
  \<open>WriteString(text)\<close>: a missing file is created with \<open>perm\<close>, an existing
  one keeps its mode and grows at its end.
\<close>

definition osAppendFile :: "world \<Rightarrow> string \<Rightarrow> string \<Rightarrow> nat \<Rightarrow> oserr + world" where
  "osAppendFile w p txt perm =
     (if denied w p then Inl ErrPermission
      else case fs w p of
             None \<Rightarrow> Inr (w\<lparr>fs := (fs w)(p \<mapsto> File perm txt)\<rparr>)
           | Some (Dir m) \<Rightarrow> Inl ErrIsDir
           | Some (File m c) \<Rightarrow> Inr (w\<lparr>fs := (fs w)(p \<mapsto> File m (c @ txt))\<rparr>))"

text \<open>\<open>os.MkdirAll(p, perm)\<close>: an existing directory is left as it is.\<close>

definition osMkdirAll :: "world \<Rightarrow> string \<Rightarrow> nat \<Rightarrow> oserr + world" where
  "osMkdirAll w p perm =
     (if denied w p then Inl ErrPermission
      else case fs w p of
             None \<Rightarrow> Inr (w\<lparr>fs := (fs w)(p \<mapsto> Dir perm)\<rparr>)
           | Some (Dir m) \<Rightarrow> Inr w
           | Some (File m c) \<Rightarrow> Inl ErrNotDir)"

text \<open>\<open>os.Remove\<close>, on a file.\<close>

definition osRemove :: "world \<Rightarrow> string \<Rightarrow> oserr + world" where
  "osRemove w p =
     (if denied w p then Inl ErrPermission
      else case fs w p of
             None \<Rightarrow> Inl ErrNotExist
           | Some n \<Rightarrow> Inr (w\<lparr>fs := (fs w)(p := None)\<rparr>))"

text \<open>\<open>homeDir, _ := os.UserHomeDir()\<close>: the empty string when the call fails.\<close>

definition homeDirOrEmpty :: "world \<Rightarrow> string" where
  "homeDirOrEmpty w = (case home w of None \<Rightarrow> [] | Some h \<Rightarrow> h)"

text \<open>The errors the commands report, by the kinds of the specification.\<close>

datatype error =
    NotFound
  | NoAccounts
  | AlreadyExists
  | NotARepository
  | PathAndGlobal
  | GitCommandFailed string
  | GenerationFailed
  | IOFailure string

section \<open>Persistent config store (cmd/root.go, lines 701 to 807)\<close>

record Account =
  Name :: string
  Email :: string
  SSHKey :: string
  Username :: string
  IsDefault :: bool

record Config =
  Accounts :: "Account list"
  CurrentAccount :: string
  MigrationDone :: bool

definition getConfigPath :: "world \<Rightarrow> string" where
  "getConfigPath w = pathJoin [homeDirOrEmpty w, ''.krakncat'', ''config.json'']"

definition ensureConfigDir :: "world \<Rightarrow> oserr + world" where
  "ensureConfigDir w = osMkdirAll w (pathJoin [homeDirOrEmpty w, ''.krakncat'']) (mode 7 5 5)"

text \<open>
  \<open>loadConfig\<close>. \<open>json.Unmarshal\<close> is a parameter: \<open>unmarshal data\<close> is the
  decoded store, or \<open>None\<close> when the text is not JSON of the store's shape.
\<close>

definition loadConfig :: "(string \<Rightarrow> Config option) \<Rightarrow> world \<Rightarrow> error + Config" where
  "loadConfig unmarshal w =
     (let configPath = getConfigPath w
      in if isNotExist (osStat w configPath) then
           Inr \<lparr>Accounts = [], CurrentAccount = [], MigrationDone = False\<rparr>
         else case osReadFile w configPath of
                Inl e \<Rightarrow> Inl (IOFailure ''failed to read config'')
              | Inr data \<Rightarrow>
                  (case unmarshal data of
                     None \<Rightarrow> Inl (IOFailure ''failed to parse config'')
                   | Some config \<Rightarrow> Inr config))"

text \<open>
  \<open>saveConfig\<close>. \<open>json.MarshalIndent\<close> is the parameter \<open>marshal\<close>; it
  cannot fail on a store of strings and booleans.
\<close>

definition saveConfig :: "(Config \<Rightarrow> string) \<Rightarrow> Config \<Rightarrow> world \<Rightarrow> error option \<times> world" where
  "saveConfig marshal c w =
     (case ensureConfigDir w of
        Inl e \<Rightarrow> (Some (IOFailure ''failed to create config directory''), w)
      | Inr w1 \<Rightarrow>
          (case osWriteFile w1 (getConfigPath w1) (marshal c) (mode 6 4 4) of
             Inl e \<Rightarrow> (Some (IOFailure ''failed to write config''), w1)
           | Inr w2 \<Rightarrow> (None, w2)))"

text \<open>
  The loop of \<open>addAccount\<close>: the first entry with the name of \<open>account\<close> is
  overwritten; \<open>None\<close> when the loop ends without a match.
\<close>

fun replaceFirst :: "Account list \<Rightarrow> Account \<Rightarrow> Account list option" where
  "replaceFirst [] account = None"
| "replaceFirst (existing # rest) account =
     (if Name existing = Name account then Some (account # rest)
      else map_option ((#) existing) (replaceFirst rest account))"

text \<open>
  \<open>addAccount\<close>: the store in memory after the call, and what \<open>saveConfig\<close>
  returned.
\<close>

definition addAccountMem :: "Config \<Rightarrow> Account \<Rightarrow> Config" where
  "addAccountMem c account =
     (case replaceFirst (Accounts c) account of
        Some accs \<Rightarrow> c\<lparr>Accounts := accs\<rparr>
      | None \<Rightarrow>
          (let c1 = c\<lparr>Accounts := Accounts c @ [account]\<rparr>
           in if length (Accounts c1) = 1 then
                c1\<lparr>CurrentAccount := Name account,
                   Accounts := (Accounts c1)[0 := account\<lparr>IsDefault := True\<rparr>]\<rparr>
              else c1))"

definition addAccount ::
  "(Config \<Rightarrow> string) \<Rightarrow> Config \<Rightarrow> Account \<Rightarrow> world \<Rightarrow> error option \<times> Config \<times> world" where
  "addAccount marshal c account w =
     (let c1 = addAccountMem c account; (r, w1) = saveConfig marshal c1 w in (r, c1, w1))"

text \<open>\<open>getAccount\<close>: the first account with the name, \<open>None\<close> for \<open>nil\<close>.\<close>

fun getAccountIn :: "Account list \<Rightarrow> string \<Rightarrow> Account option" where
  "getAccountIn [] name = None"
| "getAccountIn (account # rest) name =
     (if Name account = name then Some account else getAccountIn rest name)"

definition getAccount :: "Config \<Rightarrow> string \<Rightarrow> Account option" where
  "getAccount c name = getAccountIn (Accounts c) name"

text \<open>\<open>setCurrentAccount\<close>\<close>

definition setCurrentAccount ::
  "(Config \<Rightarrow> string) \<Rightarrow> Config \<Rightarrow> string \<Rightarrow> world \<Rightarrow> error option \<times> Config \<times> world" where
  "setCurrentAccount marshal c name w =
     (case getAccount c name of
        None \<Rightarrow> (Some NotFound, c, w)
      | Some account \<Rightarrow>
          (let c1 = c\<lparr>CurrentAccount := name\<rparr>; (r, w1) = saveConfig marshal c1 w
           in (r, c1, w1)))"

text \<open>
  The store in memory after the removal block of \<open>removeCmd\<close> (cmd/remove.go,
  lines 47 to 65): every account with the name is dropped, and a current account
  of that name is replaced by the first remaining one, or by the empty name.
\<close>

definition removeAccount :: "Config \<Rightarrow> string \<Rightarrow> Config" where
  "removeAccount c accountName =
     (let newAccounts = filter (\<lambda>acc. Name acc \<noteq> accountName) (Accounts c);
          c1 = c\<lparr>Accounts := newAccounts\<rparr>
      in if CurrentAccount c1 = accountName then
           (if length (Accounts c1) > 0 then c1\<lparr>CurrentAccount := Name (Accounts c1 ! 0)\<rparr>
            else c1\<lparr>CurrentAccount := []\<rparr>)
         else c1)"

text \<open>
  The store in memory at the end of \<open>checkAndOfferMigration\<close> (cmd/root.go, lines 51 to 134):
  the migrated accounts are appended, the first account of the store becomes
  the current one, and the migration is marked as done. With nothing discovered
  or nothing selected, \<open>migrated\<close> is empty.
\<close>

definition migrateStore :: "Config \<Rightarrow> Account list \<Rightarrow> Config" where
  "migrateStore c migrated =
     (let c1 = c\<lparr>Accounts := Accounts c @ migrated\<rparr>;
          c2 = (if length (Accounts c1) > 0 then c1\<lparr>CurrentAccount := Name (Accounts c1 ! 0)\<rparr>
                else c1)
      in c2\<lparr>MigrationDone := True\<rparr>)"

text \<open>
  The mutations of the store that the commands make before they save it:
  \<^item> \<open>addAccount\<close> (commands add and generate-key);
  \<^item> \<open>c.CurrentAccount = name\<close> after \<open>getAccount\<close> has found the account
    (\<open>setCurrentAccount\<close>, and the commands use and global);
  \<^item> the removal block of the command remove, after \<open>getAccount\<close> has found
    the account;
  \<^item> the migration, which runs only on a store without accounts whose migration
    is not done;
  \<^item> setting or clearing \<open>MigrationDone\<close> (migration skipped, command migrate).
\<close>

inductive storeStep :: "Config \<Rightarrow> Config \<Rightarrow> bool" where
  stepAdd: "storeStep c (addAccountMem c account)"
| stepCurrent: "getAccount c name = Some account \<Longrightarrow> storeStep c (c\<lparr>CurrentAccount := name\<rparr>)"
| stepRemove: "getAccount c name = Some account \<Longrightarrow> storeStep c (removeAccount c name)"
| stepMigrate: "\<not> MigrationDone c \<Longrightarrow> Accounts c = [] \<Longrightarrow> storeStep c (migrateStore c migrated)"
| stepFlag: "storeStep c (c\<lparr>MigrationDone := b\<rparr>)"

text \<open>The invariant of the store: a current account that is not empty names an account.\<close>

definition currentValid :: "Config \<Rightarrow> bool" where
  "currentValid c = (CurrentAccount c = [] \<or> CurrentAccount c \<in> Name ` set (Accounts c))"

text \<open>
  The display of the command list (cmd/root.go, lines 483 to 487): the status shown after the name of
  each account, in the order of the store.
\<close>

definition listStatus :: "Config \<Rightarrow> string list" where
  "listStatus c =
     map (\<lambda>account. if Name account = CurrentAccount c then '' (current)'' else [])
       (Accounts c)"

section \<open>Switching accounts (cmd/root.go, lines 820 to 939)\<close>

definition isGitRepository :: "world \<Rightarrow> string \<Rightarrow> bool" where
  "isGitRepository w path =
     (case osStat w (pathJoin [path, ''.git'']) of
        Inl e \<Rightarrow> False
      | Inr (Dir m) \<Rightarrow> True
      | Inr (File m c) \<Rightarrow> False)"

text \<open>
  \<open>setGitConfig\<close>: runs \<open>git config --global key value\<close> or
  \<open>git -C repoPath config key value\<close>; \<open>True\<close> is the \<open>nil\<close> error.
\<close>

definition setGitConfig :: "world \<Rightarrow> string \<Rightarrow> string \<Rightarrow> string \<Rightarrow> bool \<Rightarrow> bool \<times> world" where
  "setGitConfig w key val repoPath global =
     (if global then
        (if gitOK w [''config'', ''--global'', key, val]
         then (True, w\<lparr>gitGlobal := (gitGlobal w)(key \<mapsto> val)\<rparr>)
         else (False, w))
      else
        (if gitOK w [''-C'', repoPath, ''config'', key, val]
         then (True, w\<lparr>gitLocal := (gitLocal w)(repoPath := (gitLocal w repoPath)(key \<mapsto> val))\<rparr>)
         else (False, w)))"

text \<open>
  \<open>useCmd\<close>: the positional arguments are \<open>accountName # rest\<close> (at least one, by
  \<open>cobra.MinimumNArgs(1)\<close>), \<open>globalFlag\<close> is the flag \<open>--global\<close>.
\<close>

definition useCmd ::
  "(string \<Rightarrow> Config option) \<Rightarrow> (Config \<Rightarrow> string) \<Rightarrow> string \<Rightarrow> string list \<Rightarrow> bool \<Rightarrow> world
     \<Rightarrow> error option \<times> world" where
  "useCmd unmarshal marshal accountName rest globalFlag w =
     (if rest \<noteq> [] \<and> \<not> globalFlag \<and> \<not> isGitRepository w (hd rest) then (Some NotARepository, w)
      else if rest \<noteq> [] \<and> globalFlag then (Some PathAndGlobal, w)
      else
        (let global = \<not> (rest \<noteq> [] \<and> \<not> globalFlag);
             repoPath = (if global then [] else hd rest)
         in case loadConfig unmarshal w of
              Inl e \<Rightarrow> (Some (IOFailure ''failed to load config''), w)
            | Inr config \<Rightarrow>
                (case getAccount config accountName of
                   None \<Rightarrow> (if length (Accounts config) = 0 then (Some NoAccounts, w)
                            else (Some NotFound, w))
                 | Some account \<Rightarrow>
                     (case setGitConfig w ''user.name'' (Username account) repoPath global of
                        (False, w1) \<Rightarrow> (Some (GitCommandFailed ''failed to set git user.name''), w1)
                      | (True, w1) \<Rightarrow>
                          (case setGitConfig w1 ''user.email'' (Email account) repoPath global of
                             (False, w2) \<Rightarrow>
                               (Some (GitCommandFailed ''failed to set git user.email''), w2)
                           | (True, w2) \<Rightarrow>
                               (if global then
                                  (case saveConfig marshal (config\<lparr>CurrentAccount := accountName\<rparr>) w2 of
                                     (Some e, w3) \<Rightarrow> (Some (IOFailure ''failed to save config''), w3)
                                   | (None, w3) \<Rightarrow> (None, w3))
                                else (None, w2)))))))"

section \<open>Discovery of existing accounts (cmd/root.go, lines 137 to 202 and 404 to 418)\<close>

text \<open>
  \<open>DiscoveredAccount\<close>; the fields \<open>Name\<close>, \<open>Email\<close> and \<open>Username\<close> carry
  the prefix \<open>D\<close> here, the names without it being the fields of \<open>Account\<close>.
\<close>

record DiscoveredAccount =
  DName :: string
  DEmail :: string
  DUsername :: string
  Source :: string
  Suggested :: bool

text \<open>
  \<open>getGitConfigValue\<close>: \<open>git config [--global] --get key\<close>; the empty string
  when git exits with an error (which it does for a key that is not set), and
  the trimmed output otherwise. git prints the value and a line feed.
\<close>

definition getGitConfigValue :: "world \<Rightarrow> string \<Rightarrow> bool \<Rightarrow> string" where
  "getGitConfigValue w key global =
     (let args = (if global then [''config'', ''--global'', ''--get'', key]
                  else [''config'', ''--get'', key]);
          stored = (if global then gitGlobal w key else gitLocal w (cwd w) key)
      in if gitOK w args then
           (case stored of None \<Rightarrow> [] | Some v \<Rightarrow> trimSpace (v @ [NL]))
         else [])"

text \<open>
  The loop of \<open>discoverSSHAccounts\<close> over the lines of the SSH config, with its
  variables \<open>currentHost\<close>, \<open>currentUser\<close> and \<open>accounts\<close>.
\<close>

fun sshScan ::
  "string list \<Rightarrow> string \<Rightarrow> string \<Rightarrow> DiscoveredAccount list \<Rightarrow> DiscoveredAccount list" where
  "sshScan [] currentHost currentUser accounts = accounts"
| "sshScan (l # ls) currentHost currentUser accounts =
     (let line = trimSpace l
      in if hasPrefix line ''Host github.com-'' then
           sshScan ls (trimPrefix line ''Host '') [] accounts
         else if hasPrefix line ''User '' \<and> currentHost \<noteq> [] then
           (let user = trimPrefix line ''User '';
                accountName = trimPrefix currentHost ''github.com-''
            in if accountName \<noteq> [] \<and> accountName \<noteq> ''github.com'' then
                 sshScan ls currentHost user
                   (accounts @ [\<lparr>DName = [], DEmail = [], DUsername = user,
                                 Source = ''SSH Config ('' @ currentHost @ '')'',
                                 Suggested = False\<rparr>])
               else sshScan ls currentHost user accounts)
         else sshScan ls currentHost currentUser accounts)"

definition discoverSSHAccounts :: "world \<Rightarrow> DiscoveredAccount list" where
  "discoverSSHAccounts w =
     (case home w of
        None \<Rightarrow> []
      | Some homeDir \<Rightarrow>
          (case osReadFile w (pathJoin [homeDir, ''.ssh'', ''config'']) of
             Inl e \<Rightarrow> []
           | Inr content \<Rightarrow> sshScan (split content NL) [] [] []))"

definition discoverExistingAccounts :: "world \<Rightarrow> DiscoveredAccount list" where
  "discoverExistingAccounts w =
     (let globalUser = getGitConfigValue w ''user.name'' True;
          globalEmail = getGitConfigValue w ''user.email'' True;
          discovered = (if globalUser \<noteq> [] \<or> globalEmail \<noteq> [] then
                          [\<lparr>DName = globalUser, DEmail = globalEmail, DUsername = [],
                            Source = ''Global Git Config'', Suggested = True\<rparr>]
                        else [])
      in discovered @ discoverSSHAccounts w)"

text \<open>
  What every entry that comes from the SSH config looks like: not suggested, a
  source of the form \<open>SSH Config (...)\<close>, no name and no email.
\<close>

definition sshEntry :: "DiscoveredAccount \<Rightarrow> bool" where
  "sshEntry a = (\<not> Suggested a \<and> hasPrefix (Source a) ''SSH Config ('' \<and> DName a = [] \<and> DEmail a = [])"

section \<open>Conditional includes (cmd/directory.go, lines 124 to 158)\<close>

abbreviation DQ :: char where "DQ \<equiv> CHR 0x22"


text \<open>
  The text \<open>"\n[includeIf \"gitdir:%s\"]\n\tpath = %s\n"\<close> that
  \<open>addConditionalInclude\<close> formats.
\<close>

definition includeSection :: "string \<Rightarrow> string \<Rightarrow> string" where
  "includeSection pat configPath =
     [NL] @ ''[includeIf '' @ [DQ] @ ''gitdir:'' @ pat @ [DQ] @ '']'' @ [NL, TAB]
       @ ''path = '' @ configPath @ [NL]"

text \<open>The header line \<open>[includeIf "gitdir:<pattern>"]\<close> of a stanza.\<close>

definition includeHeader :: "string \<Rightarrow> string" where
  "includeHeader pat = ''[includeIf '' @ [DQ] @ ''gitdir:'' @ pat @ [DQ] @ '']''"



section \<open>SSH keys and SSH config (cmd/remove.go, lines 124 to 231)\<close>

definition ensureSSHDirectory :: "world \<Rightarrow> error option \<times> world" where
  "ensureSSHDirectory w =
     (case home w of
        None \<Rightarrow> (Some (IOFailure ''could not get user home directory''), w)
      | Some homeDir \<Rightarrow>
          (case osMkdirAll w (pathJoin [homeDir, ''.ssh'']) (mode 7 0 0) of
             Inl e \<Rightarrow> (Some (IOFailure ''failed to create SSH directory''), w)
           | Inr w1 \<Rightarrow> (None, w1)))"

definition ensureSSHKeyDirectory :: "world \<Rightarrow> string \<Rightarrow> error option \<times> world" where
  "ensureSSHKeyDirectory w keyPath =
     (case osMkdirAll w (pathDir keyPath) (mode 7 0 0) of
        Inl e \<Rightarrow> (Some (IOFailure ''failed to create directory for SSH key''), w)
      | Inr w1 \<Rightarrow> (None, w1))"

text \<open>Running ssh-keygen: the call is recorded, and the tool acts on the file system.\<close>

definition runSSHKeygen :: "world \<Rightarrow> string list \<Rightarrow> bool \<times> world" where
  "runSSHKeygen w args =
     (let (ok, fs1) = sshKeygen w args (fs w)
      in (ok, w\<lparr>fs := fs1, keygenCalls := keygenCalls w @ [args]\<rparr>))"

definition keygenArgs :: "string \<Rightarrow> string \<Rightarrow> string list" where
  "keygenArgs email keyPath = [''-t'', ''ed25519'', ''-C'', email, ''-f'', keyPath, ''-q'', ''-N'', []]"

text \<open>
  The first part of \<open>generateSSHKey\<close> (lines 124 to 162): the directories,
  the check of the key path, the run of ssh-keygen and the reading of the public
  key, which is the result on success.
\<close>

definition generateSSHKeyPair :: "string \<Rightarrow> string \<Rightarrow> world \<Rightarrow> (error + string) \<times> world" where
  "generateSSHKeyPair email keyPath w =
     (case ensureSSHDirectory w of
        (Some e, w1) \<Rightarrow> (Inl e, w1)
      | (None, w1) \<Rightarrow>
          (case ensureSSHKeyDirectory w1 keyPath of
             (Some e, w2) \<Rightarrow> (Inl e, w2)
           | (None, w2) \<Rightarrow>
               (case osStat w2 keyPath of
                  Inr n \<Rightarrow> (Inl AlreadyExists, w2)
                | Inl e \<Rightarrow>
                    (case runSSHKeygen w2 (keygenArgs email keyPath) of
                       (False, w3) \<Rightarrow> (Inl GenerationFailed, w3)
                     | (True, w3) \<Rightarrow>
                         (case osReadFile w3 (keyPath @ ''.pub'') of
                            Inl e \<Rightarrow> (Inl (IOFailure ''could not read public key''), w3)
                          | Inr pubKey \<Rightarrow> (Inr pubKey, w3))))))"

text \<open>The SSH config snippet of \<open>generateSSHKey\<close>.\<close>

definition sshConfigSnippet :: "string \<Rightarrow> string \<Rightarrow> string" where
  "sshConfigSnippet name keyPath =
     [NL, NL] @ ''Host github.com-'' @ name @ [NL]
       @ ''  HostName github.com'' @ [NL]
       @ ''  User git'' @ [NL]
       @ ''  IdentityFile '' @ keyPath @ [NL]"

definition sshConfigPath :: "world \<Rightarrow> string" where
  "sshConfigPath w = pathJoin [homeDirOrEmpty w, ''.ssh'', ''config'']"

text \<open>
  The second part of \<open>generateSSHKey\<close> (lines 164 to 199): \<open>resp\<close> is the line the user types at
  the prompt; with \<open>y\<close> or an empty answer the snippet is appended to the SSH
  config.
\<close>

definition appendSSHConfig :: "string \<Rightarrow> string \<Rightarrow> string \<Rightarrow> world \<Rightarrow> error option \<times> world" where
  "appendSSHConfig name keyPath resp0 w =
     (let resp = toLower (trimSpace resp0)
      in if resp = ''y'' \<or> resp = [] then
           (case ensureSSHDirectory w of
              (Some e, w1) \<Rightarrow> (Some e, w1)
            | (None, w1) \<Rightarrow>
                (case osAppendFile w1 (sshConfigPath w1) (sshConfigSnippet name keyPath) (mode 6 4 4) of
                   Inl e \<Rightarrow> (Some (IOFailure ''failed to write to SSH config''), w1)
                 | Inr w2 \<Rightarrow> (None, w2)))
         else (None, w))"

text \<open>\<open>generateSSHKey\<close>: the public key that is printed at the end, or the error.\<close>

definition generateSSHKey ::
  "string \<Rightarrow> string \<Rightarrow> string \<Rightarrow> string \<Rightarrow> world \<Rightarrow> (error + string) \<times> world" where
  "generateSSHKey name email keyPath resp0 w =
     (case generateSSHKeyPair email keyPath w of
        (Inl e, w1) \<Rightarrow> (Inl e, w1)
      | (Inr pubKey, w1) \<Rightarrow>
          (case appendSSHConfig name keyPath resp0 w1 of
             (Some e, w2) \<Rightarrow> (Inl e, w2)
           | (None, w2) \<Rightarrow> (Inr pubKey, w2)))"

text \<open>
  \<open>grows w w1\<close>: the environment \<open>w1\<close> is \<open>w\<close> with, at most, nodes added
  at paths that were free; the denied paths, the home directory, the tools and
  the recorded calls are the same.
\<close>

definition grows :: "world \<Rightarrow> world \<Rightarrow> bool" where
  "grows w w1 =
     (denied w1 = denied w \<and> home w1 = home w \<and> sshKeygen w1 = sshKeygen w
      \<and> keygenCalls w1 = keygenCalls w
      \<and> (\<forall>q n. fs w q = Some n \<longrightarrow> fs w1 q = Some n))"

text \<open>The permission bits of a node, if there is one.\<close>

definition nodeMode :: "node option \<Rightarrow> nat option" where
  "nodeMode x = (case x of None \<Rightarrow> None | Some (Dir m) \<Rightarrow> Some m | Some (File m c) \<Rightarrow> Some m)"

text \<open>
  The deletion of the key files at the end of \<open>removeCmd\<close> (when the user
  agrees): both files are removed, a failure is only reported.
\<close>

definition removeKeyFiles :: "world \<Rightarrow> string \<Rightarrow> world" where
  "removeKeyFiles w sshKey =
     (let w1 = (case osRemove w sshKey of Inl e \<Rightarrow> w | Inr w' \<Rightarrow> w')
      in case osRemove w1 (sshKey @ ''.pub'') of Inl e \<Rightarrow> w1 | Inr w' \<Rightarrow> w')"

section \<open>Provider registry (cmd/providers.go, lines 302 to 326)\<close>

text \<open>
  \<open>generateKeySuffix\<close>: the three prefixes are removed one after the other, the
  host name is split at the dots, and with two parts or more the first part is
  returned, cut to 8 bytes; otherwise the host name itself, cut to 8 bytes.
\<close>

definition generateKeySuffix :: "string \<Rightarrow> string" where
  "generateKeySuffix hostname0 =
     (let hostname1 = trimPrefix hostname0 ''git.'';
          hostname2 = trimPrefix hostname1 ''code.'';
          hostname = trimPrefix hostname2 ''source.'';
          parts = split hostname (CHR ''.'')
      in if length parts \<ge> 2 then
           (let suffix = parts ! 0
            in if length suffix > 8 then take 8 suffix else suffix)
         else if length hostname > 8 then take 8 hostname
         else hostname)"

text \<open>The host name after the removal of the prefixes.\<close>

definition stripPrefixes :: "string \<Rightarrow> string" where
  "stripPrefixes h = trimPrefix (trimPrefix (trimPrefix h ''git.'') ''code.'') ''source.''"

section \<open>Example data\<close>

text \<open>
  An environment with a home directory, a git that works and an ssh-keygen that
  writes the key pair named by its \<open>-f\<close> argument (the sixth argument of the
  call in \<open>generateSSHKey\<close>).
\<close>

definition exampleKeygen ::
  "string list \<Rightarrow> (string \<Rightarrow> node option) \<Rightarrow> bool \<times> (string \<Rightarrow> node option)" where
  "exampleKeygen args f =
     (True, f(args ! 5 \<mapsto> File (mode 6 0 0) ''PRIVATE KEY'',
              (args ! 5) @ ''.pub'' \<mapsto> File (mode 6 4 4) ''ssh-ed25519 AAAA''))"

definition exampleWorld :: world where
  "exampleWorld =
     \<lparr>fs = Map.empty(''/home/u'' \<mapsto> Dir (mode 7 5 5)),
      denied = (\<lambda>p. False),
      home = Some ''/home/u'',
      cwd = ''/home/u'',
      gitOK = (\<lambda>args. True),
      gitGlobal = Map.empty,
      gitLocal = (\<lambda>repo. Map.empty),
      sshKeygen = exampleKeygen,
      keygenCalls = []\<rparr>"

text \<open>
  The key of the account \<open>work\<close>; an environment that holds it already, and
  one whose ssh-keygen fails.
\<close>

definition workKey :: string where
  "workKey = ''/home/u/.ssh/id_ed25519_gh_work''"

definition keyWorld :: world where
  "keyWorld =
     exampleWorld\<lparr>fs := (fs exampleWorld)
       (''/home/u/.ssh'' \<mapsto> Dir (mode 7 0 0),
        workKey \<mapsto> File (mode 6 0 0) ''PRIVATE KEY'',
        workKey @ ''.pub'' \<mapsto> File (mode 6 4 4) ''ssh-ed25519 AAAA'')\<rparr>"

definition noKeygenWorld :: world where
  "noKeygenWorld = exampleWorld\<lparr>sshKeygen := (\<lambda>args f. (False, f))\<rparr>"

text \<open>
  A key is generated for \<open>work\<close> and the SSH config accepted; the key files
  are removed; the key is generated again.
\<close>

definition firstRun :: world where
  "firstRun = snd (generateSSHKey ''work'' ''me@work.com'' workKey ''y'' exampleWorld)"

definition keysRemoved :: world where
  "keysRemoved = removeKeyFiles firstRun workKey"

definition secondRun :: world where
  "secondRun = snd (generateSSHKey ''work'' ''me@work.com'' workKey ''y'' keysRemoved)"




definition acctPersonal :: Account where
  "acctPersonal = \<lparr>Name = ''personal'', Email = ''me@home.org'',
     SSHKey = ''/home/u/.ssh/id_ed25519_gh_personal'', Username = ''me'', IsDefault = True\<rparr>"

definition acctWork :: Account where
  "acctWork = \<lparr>Name = ''work'', Email = ''me@work.com'',
     SSHKey = ''/home/u/.ssh/id_ed25519_gh_work'', Username = ''me-work'', IsDefault = False\<rparr>"

definition acctWorkNew :: Account where
  "acctWorkNew = \<lparr>Name = ''work'', Email = ''new@work.com'',
     SSHKey = ''/home/u/.ssh/id_work2'', Username = ''me-corp'', IsDefault = False\<rparr>"

definition exampleStore :: Config where
  "exampleStore = \<lparr>Accounts = [acctPersonal, acctWork], CurrentAccount = ''work'',
     MigrationDone = True\<rparr>"

definition ghostStore :: Config where
  "ghostStore = \<lparr>Accounts = [acctPersonal, acctWork], CurrentAccount = ''ghost'',
     MigrationDone = True\<rparr>"

text \<open>A decoder that accepts two texts, and environments with a config file.\<close>

definition exampleUnmarshal :: "string \<Rightarrow> Config option" where
  "exampleUnmarshal s =
     (if s = ''{}'' then Some \<lparr>Accounts = [], CurrentAccount = [], MigrationDone = True\<rparr>
      else if s = ''{personal, work}'' then Some exampleStore
      else None)"

text \<open>
  An environment with a global git identity and an SSH config with two host
  aliases for GitHub and one block for another host.
\<close>

definition exampleSSHConfig :: string where
  "exampleSSHConfig =
     ''Host github.com-work'' @ [NL] @
     ''  HostName github.com'' @ [NL] @
     ''  User git'' @ [NL] @
     ''  IdentityFile ~/.ssh/id_work'' @ [NL] @
     [NL] @
     ''Host example.org'' @ [NL] @
     ''  Port 2222'' @ [NL] @
     ''Host github.com-personal'' @ [NL] @
     [TAB] @ ''User git '' @ [NL]"

definition discoveryWorld :: world where
  "discoveryWorld =
     exampleWorld\<lparr>fs := (fs exampleWorld)
         (''/home/u/.ssh'' \<mapsto> Dir (mode 7 0 0),
          ''/home/u/.ssh/config'' \<mapsto> File (mode 6 0 0) exampleSSHConfig),
       gitGlobal := Map.empty(''user.email'' \<mapsto> ''me@home.org'')\<rparr>"

definition repoWorld :: world where
  "repoWorld =
     exampleWorld\<lparr>fs := (fs exampleWorld)
       (''/home/u/.krakncat/config.json'' \<mapsto> File (mode 6 4 4) ''{personal, work}'',
        ''/home/u/proj'' \<mapsto> Dir (mode 7 5 5),
        ''/home/u/proj/.git'' \<mapsto> Dir (mode 7 5 5),
        ''/home/u/notes'' \<mapsto> Dir (mode 7 5 5))\<rparr>"

definition brokenConfigWorld :: world where
  "brokenConfigWorld =
     exampleWorld\<lparr>fs := (fs exampleWorld)
       (''/home/u/.krakncat/config.json'' \<mapsto> File (mode 6 4 4) ''{ accounts: '')\<rparr>"

definition savedConfigWorld :: world where
  "savedConfigWorld =
     exampleWorld\<lparr>fs := (fs exampleWorld)
       (''/home/u/.krakncat/config.json'' \<mapsto> File (mode 6 4 4) ''{}'')\<rparr>"

section \<open>Properties\<close>

lemma split_nonempty: "split s sep \<noteq> []"
  by (induction s) (auto simp: Let_def)

lemma hd_split: "hd (split s sep) = takeWhile (\<lambda>c. c \<noteq> sep) s"
  by (induction s) (auto simp: Let_def)

lemma split_no_sep: "sep \<notin> set s \<Longrightarrow> split s sep = [s]"
  by (induction s) (auto simp: Let_def)

lemma length_split_one: "length (split s sep) < 2 \<Longrightarrow> sep \<notin> set s"
proof (induction s)
  case Nil
  then show ?case by simp
next
  case (Cons c cs)
  have ne: "split cs sep \<noteq> []" by (rule split_nonempty)
  show ?case
  proof (cases "c = sep")
    case True
    with Cons.prems ne show ?thesis by (cases "split cs sep") auto
  next
    case False
    with Cons.prems have "length (split cs sep) < 2"
      using ne by (cases "split cs sep") (auto simp: Let_def)
    with Cons.IH False show ?thesis by simp
  qed
qed

lemma takeWhile_no_sep: "sep \<notin> set s \<Longrightarrow> takeWhile (\<lambda>c. c \<noteq> sep) s = s"
  by (induction s) auto

lemma hasPrefix_no_dot:
  "CHR ''.'' \<notin> set s \<Longrightarrow> CHR ''.'' \<in> set p \<Longrightarrow> \<not> hasPrefix s p"
  by (induction s p rule: hasPrefix.induct) auto

lemma trimPrefix_no_dot:
  "CHR ''.'' \<notin> set s \<Longrightarrow> CHR ''.'' \<in> set p \<Longrightarrow> trimPrefix s p = s"
  by (simp add: trimPrefix_def hasPrefix_no_dot)

lemma stripPrefixes_no_dot: "CHR ''.'' \<notin> set h \<Longrightarrow> stripPrefixes h = h"
  by (simp add: stripPrefixes_def trimPrefix_no_dot)

lemma generateKeySuffix_label:
  "generateKeySuffix h = take 8 (takeWhile (\<lambda>c. c \<noteq> CHR ''.'') (stripPrefixes h))"
proof -
  let ?s = "stripPrefixes h"
  let ?parts = "split ?s (CHR ''.'')"
  have ne: "?parts \<noteq> []" by (rule split_nonempty)
  show ?thesis
  proof (cases "length ?parts \<ge> 2")
    case True
    have "?parts ! 0 = hd ?parts" using ne by (simp add: hd_conv_nth)
    with True show ?thesis
      by (simp add: generateKeySuffix_def stripPrefixes_def [symmetric] Let_def hd_split)
  next
    case False
    then have "CHR ''.'' \<notin> set ?s" using length_split_one [of ?s "CHR ''.''"] by simp
    then have tw: "takeWhile (\<lambda>c. c \<noteq> CHR ''.'') ?s = ?s" by (rule takeWhile_no_sep)
    from False show ?thesis
      by (simp add: generateKeySuffix_def stripPrefixes_def [symmetric] Let_def tw)
  qed
qed

text \<open>
  Claim C5. For every host name, \<open>generateKeySuffix\<close> removes the prefixes
  (\<open>git.\<close>, \<open>code.\<close>, \<open>source.\<close>), takes the first dot-separated label of what
  is left and cuts it to 8 bytes; a host name without a dot gives its own first
  8 bytes. The three examples of the specification evaluate as stated.
\<close>

theorem generateKeySuffix_spec:
  "generateKeySuffix h = take 8 (takeWhile (\<lambda>c. c \<noteq> CHR ''.'') (stripPrefixes h))
   \<and> (CHR ''.'' \<notin> set h \<longrightarrow> generateKeySuffix h = take 8 h)
   \<and> generateKeySuffix ''git.company.com'' = ''company''
   \<and> generateKeySuffix ''shortdomain'' = ''shortdom''
   \<and> generateKeySuffix ''a.b'' = ''a''"
proof -
  have a: "generateKeySuffix h = take 8 (takeWhile (\<lambda>c. c \<noteq> CHR ''.'') (stripPrefixes h))"
    by (rule generateKeySuffix_label)
  have b: "CHR ''.'' \<notin> set h \<longrightarrow> generateKeySuffix h = take 8 h"
    by (simp add: generateKeySuffix_label stripPrefixes_no_dot takeWhile_no_sep)
  have c: "generateKeySuffix ''git.company.com'' = ''company''"
    by (simp add: generateKeySuffix_def trimPrefix_def Let_def)
  have d: "generateKeySuffix ''shortdomain'' = ''shortdom''"
    by (simp add: generateKeySuffix_def trimPrefix_def Let_def)
  have e: "generateKeySuffix ''a.b'' = ''a''"
    by (simp add: generateKeySuffix_def trimPrefix_def Let_def)
  from a b c d e show ?thesis by blast
qed

theorem generateKeySuffix_spec_witness:
  "CHR ''.'' \<notin> set ''averylonghostname''
   \<and> generateKeySuffix ''averylonghostname'' = ''averylon''
   \<and> generateKeySuffix ''source.my-forge-server.example.org'' = ''my-forge''"
proof -
  have n: "CHR ''.'' \<notin> set ''averylonghostname''" by simp
  have s: "stripPrefixes ''source.my-forge-server.example.org'' = ''my-forge-server.example.org''"
    by (simp add: stripPrefixes_def trimPrefix_def)
  from generateKeySuffix_spec [of "''averylonghostname''"]
  have "CHR ''.'' \<notin> set ''averylonghostname''
        \<longrightarrow> generateKeySuffix ''averylonghostname'' = take 8 ''averylonghostname''"
    by blast
  with n have "generateKeySuffix ''averylonghostname'' = take 8 ''averylonghostname''"
    by blast
  then have 1: "generateKeySuffix ''averylonghostname'' = ''averylon''" by simp
  from generateKeySuffix_spec [of "''source.my-forge-server.example.org''"]
  have "generateKeySuffix ''source.my-forge-server.example.org''
        = take 8 (takeWhile (\<lambda>c. c \<noteq> CHR ''.'')
            (stripPrefixes ''source.my-forge-server.example.org''))"
    by blast
  then have 2: "generateKeySuffix ''source.my-forge-server.example.org'' = ''my-forge''"
    by (simp add: s)
  from n 1 2 show ?thesis by blast
qed

subsection \<open>The config store\<close>

lemma replaceFirst_None: "(replaceFirst xs a = None) = (Name a \<notin> Name ` set xs)"
  by (induction xs) auto

lemma replaceFirst_index:
  "Name a \<in> Name ` set xs \<Longrightarrow>
   \<exists>i<length xs. Name (xs ! i) = Name a \<and> (\<forall>j<i. Name (xs ! j) \<noteq> Name a)
      \<and> replaceFirst xs a = Some (xs[i := a])"
proof (induction xs)
  case Nil
  then show ?case by simp
next
  case (Cons x xs)
  show ?case
  proof (cases "Name x = Name a")
    case True
    then have "0 < length (x # xs) \<and> Name ((x # xs) ! 0) = Name a
        \<and> (\<forall>j<0. Name ((x # xs) ! j) \<noteq> Name a)
        \<and> replaceFirst (x # xs) a = Some ((x # xs)[0 := a])" by simp
    then show ?thesis by blast
  next
    case False
    with Cons.prems have "Name a \<in> Name ` set xs" by auto
    from Cons.IH [OF this] obtain i where i: "i < length xs" "Name (xs ! i) = Name a"
      "\<forall>j<i. Name (xs ! j) \<noteq> Name a" "replaceFirst xs a = Some (xs[i := a])" by blast
    have "\<forall>j<Suc i. Name ((x # xs) ! j) \<noteq> Name a"
    proof (intro allI impI)
      fix j assume "j < Suc i"
      then show "Name ((x # xs) ! j) \<noteq> Name a" using False i(3) by (cases j) auto
    qed
    with i False have "Suc i < length (x # xs) \<and> Name ((x # xs) ! Suc i) = Name a
        \<and> (\<forall>j<Suc i. Name ((x # xs) ! j) \<noteq> Name a)
        \<and> replaceFirst (x # xs) a = Some ((x # xs)[Suc i := a])" by simp
    then show ?thesis by blast
  qed
qed

lemma names_update:
  "i < length xs \<Longrightarrow> Name (xs ! i) = Name a \<Longrightarrow> map Name (xs[i := a]) = map Name xs"
  by (simp add: map_update list_update_same_conv)

lemma addAccountMem_names:
  "map Name (Accounts (addAccountMem c a)) =
     (if Name a \<in> Name ` set (Accounts c) then map Name (Accounts c)
      else map Name (Accounts c) @ [Name a])"
proof (cases "Name a \<in> Name ` set (Accounts c)")
  case True
  from replaceFirst_index [OF True] obtain i where i: "i < length (Accounts c)"
    "Name (Accounts c ! i) = Name a" "replaceFirst (Accounts c) a = Some ((Accounts c)[i := a])"
    by blast
  with True show ?thesis by (simp add: addAccountMem_def names_update)
next
  case False
  then have n: "replaceFirst (Accounts c) a = None" by (simp add: replaceFirst_None)
  show ?thesis
  proof (cases "Accounts c")
    case Nil
    with False n show ?thesis by (simp add: addAccountMem_def Let_def)
  next
    case (Cons x xs)
    with False n show ?thesis by (simp add: addAccountMem_def Let_def)
  qed
qed

lemma addAccount_mem: "fst (snd (addAccount marshal c a w)) = addAccountMem c a"
  by (simp add: addAccount_def Let_def split: prod.splits)

text \<open>
  Claim C3. Adding an account whose name is already in the store overwrites the
  first entry of that name in place: the sequence keeps its length, the entry at
  that position is the new account, every other entry stays where it was, and the
  sequence of names is unchanged. For every account added, a store whose names are
  distinct keeps distinct names: no duplicate is created.
\<close>

theorem addAccount_overwrites_in_place:
  "(Name a \<in> Name ` set (Accounts c) \<longrightarrow>
      (\<exists>i<length (Accounts c).
          Name (Accounts c ! i) = Name a
        \<and> (\<forall>j<i. Name (Accounts c ! j) \<noteq> Name a)
        \<and> fst (snd (addAccount marshal c a w)) = c\<lparr>Accounts := (Accounts c)[i := a]\<rparr>
        \<and> length (Accounts (fst (snd (addAccount marshal c a w)))) = length (Accounts c)
        \<and> Accounts (fst (snd (addAccount marshal c a w))) ! i = a
        \<and> (\<forall>j<length (Accounts c). j \<noteq> i \<longrightarrow>
              Accounts (fst (snd (addAccount marshal c a w))) ! j = Accounts c ! j)
        \<and> map Name (Accounts (fst (snd (addAccount marshal c a w)))) = map Name (Accounts c)))
   \<and> (distinct (map Name (Accounts c)) \<longrightarrow>
        distinct (map Name (Accounts (fst (snd (addAccount marshal c a w))))))"
proof (intro conjI impI)
  assume m: "Name a \<in> Name ` set (Accounts c)"
  from replaceFirst_index [OF m] obtain i where i: "i < length (Accounts c)"
    "Name (Accounts c ! i) = Name a" "\<forall>j<i. Name (Accounts c ! j) \<noteq> Name a"
    "replaceFirst (Accounts c) a = Some ((Accounts c)[i := a])"
    by blast
  have r: "fst (snd (addAccount marshal c a w)) = c\<lparr>Accounts := (Accounts c)[i := a]\<rparr>"
    using i(4) by (simp add: addAccount_mem addAccountMem_def)
  have "length (Accounts (fst (snd (addAccount marshal c a w)))) = length (Accounts c)"
    by (simp add: r)
  moreover have "Accounts (fst (snd (addAccount marshal c a w))) ! i = a"
    using i(1) by (simp add: r)
  moreover have "\<forall>j<length (Accounts c). j \<noteq> i \<longrightarrow>
              Accounts (fst (snd (addAccount marshal c a w))) ! j = Accounts c ! j"
    by (simp add: r)
  moreover have "map Name (Accounts (fst (snd (addAccount marshal c a w)))) = map Name (Accounts c)"
    using i(1,2) by (simp add: r names_update)
  ultimately show "\<exists>i<length (Accounts c).
          Name (Accounts c ! i) = Name a
        \<and> (\<forall>j<i. Name (Accounts c ! j) \<noteq> Name a)
        \<and> fst (snd (addAccount marshal c a w)) = c\<lparr>Accounts := (Accounts c)[i := a]\<rparr>
        \<and> length (Accounts (fst (snd (addAccount marshal c a w)))) = length (Accounts c)
        \<and> Accounts (fst (snd (addAccount marshal c a w))) ! i = a
        \<and> (\<forall>j<length (Accounts c). j \<noteq> i \<longrightarrow>
              Accounts (fst (snd (addAccount marshal c a w))) ! j = Accounts c ! j)
        \<and> map Name (Accounts (fst (snd (addAccount marshal c a w)))) = map Name (Accounts c)"
    using i r by blast
next
  assume d: "distinct (map Name (Accounts c))"
  then show "distinct (map Name (Accounts (fst (snd (addAccount marshal c a w)))))"
    by (auto simp: addAccount_mem addAccountMem_names)
qed

theorem addAccount_overwrites_in_place_witness:
  "Name acctWorkNew \<in> Name ` set (Accounts exampleStore)
   \<and> map Name (Accounts (fst (snd (addAccount (\<lambda>c. []) exampleStore acctWorkNew exampleWorld))))
       = [''personal'', ''work'']
   \<and> distinct (map Name (Accounts exampleStore))
   \<and> distinct (map Name
        (Accounts (fst (snd (addAccount (\<lambda>c. []) exampleStore acctWorkNew exampleWorld)))))"
proof -
  let ?c = "fst (snd (addAccount (\<lambda>c. []) exampleStore acctWorkNew exampleWorld))"
  have h: "Name acctWorkNew \<in> Name ` set (Accounts exampleStore)"
    by (simp add: exampleStore_def acctWorkNew_def acctWork_def acctPersonal_def)
  have d: "distinct (map Name (Accounts exampleStore))"
    by (simp add: exampleStore_def acctWork_def acctPersonal_def)
  note t = addAccount_overwrites_in_place [of acctWorkNew exampleStore "\<lambda>c. []" exampleWorld]
  from t h have "map Name (Accounts ?c) = map Name (Accounts exampleStore)" by blast
  then have 1: "map Name (Accounts ?c) = [''personal'', ''work'']"
    by (simp add: exampleStore_def acctWork_def acctPersonal_def)
  from t d have 2: "distinct (map Name (Accounts ?c))" by blast
  from h 1 d 2 show ?thesis by blast
qed

lemma getAccountIn_None: "(getAccountIn xs n = None) = (n \<notin> Name ` set xs)"
  by (induction xs) auto

lemma getAccountIn_Some: "getAccountIn xs n = Some a \<Longrightarrow> a \<in> set xs \<and> Name a = n"
  by (induction xs) (auto split: if_splits)

lemma currentValid_add: "currentValid c \<Longrightarrow> currentValid (addAccountMem c a)"
proof -
  assume v: "currentValid c"
  have names: "Name ` set (Accounts (addAccountMem c a)) = set (map Name (Accounts (addAccountMem c a)))"
    by simp
  show ?thesis
  proof (cases "replaceFirst (Accounts c) a")
    case None
    then show ?thesis using v
      by (cases "Accounts c") (auto simp: currentValid_def addAccountMem_def Let_def)
  next
    case (Some accs)
    then have m: "Name a \<in> Name ` set (Accounts c)" using replaceFirst_None [of "Accounts c" a] by auto
    have cur: "CurrentAccount (addAccountMem c a) = CurrentAccount c"
      using Some by (simp add: addAccountMem_def)
    have "set (map Name (Accounts (addAccountMem c a))) = set (map Name (Accounts c))"
      using m by (simp only: addAccountMem_names if_True)
    then have "Name ` set (Accounts (addAccountMem c a)) = Name ` set (Accounts c)" by simp
    with v cur show ?thesis by (simp add: currentValid_def)
  qed
qed

lemma currentValid_current:
  "getAccount c n = Some a \<Longrightarrow> currentValid (c\<lparr>CurrentAccount := n\<rparr>)"
  using getAccountIn_Some [of "Accounts c" n a] by (auto simp: currentValid_def getAccount_def)

lemma currentValid_remove: "currentValid c \<Longrightarrow> currentValid (removeAccount c n)"
proof -
  assume v: "currentValid c"
  let ?new = "filter (\<lambda>acc. Name acc \<noteq> n) (Accounts c)"
  show ?thesis
  proof (cases "CurrentAccount c = n")
    case True
    show ?thesis
    proof (cases ?new)
      case Nil
      with True show ?thesis by (simp add: removeAccount_def Let_def currentValid_def)
    next
      case (Cons x xs)
      with True show ?thesis by (simp add: removeAccount_def Let_def currentValid_def)
    qed
  next
    case False
    with v show ?thesis by (auto simp: removeAccount_def Let_def currentValid_def)
  qed
qed

lemma currentValid_migrate: "currentValid c \<Longrightarrow> currentValid (migrateStore c ms)"
proof (cases "Accounts c @ ms")
  case Nil
  assume "currentValid c"
  with Nil show ?thesis by (simp add: migrateStore_def Let_def currentValid_def)
next
  case (Cons x xs)
  then show ?thesis by (simp add: migrateStore_def Let_def currentValid_def)
qed

lemma storeStep_currentValid: "storeStep c c' \<Longrightarrow> currentValid c \<Longrightarrow> currentValid c'"
proof (induction rule: storeStep.induct)
  case (stepAdd c account)
  then show ?case by (rule currentValid_add)
next
  case (stepCurrent c name account)
  then show ?case by (simp add: currentValid_current)
next
  case (stepRemove c name account)
  then show ?case by (simp add: currentValid_remove)
next
  case (stepMigrate c migrated)
  then show ?case by (simp add: currentValid_migrate)
next
  case (stepFlag c b)
  then show ?case by (simp add: currentValid_def)
qed

lemma removeAccount_current:
  "CurrentAccount c = n \<Longrightarrow>
   CurrentAccount (removeAccount c n) =
     (case filter (\<lambda>acc. Name acc \<noteq> n) (Accounts c) of [] \<Rightarrow> [] | x # xs \<Rightarrow> Name x)"
  by (simp add: removeAccount_def Let_def split: list.splits)

lemma removeAccount_accounts:
  "Accounts (removeAccount c n) = filter (\<lambda>acc. Name acc \<noteq> n) (Accounts c)"
  by (simp add: removeAccount_def Let_def)

lemma listStatus_dangling:
  "CurrentAccount c \<notin> Name ` set (Accounts c) \<Longrightarrow> s \<in> set (listStatus c) \<Longrightarrow> s = []"
  by (auto simp: listStatus_def split: if_splits intro: rev_image_eqI)

text \<open>
  Claim C4. Every mutation of the store keeps the invariant that a current
  account that is not empty names an account of the store; removing the current
  account makes the first remaining account the current one, or empties the
  reference when none remains. A store whose current account names no account
  (such as \<open>ghost\<close>) is tolerated: \<open>getAccount\<close> returns not-found, and the
  list display marks no account as current.
\<close>

theorem currentAccount_invariant_and_dangling:
  "(currentValid c \<and> storeStep c c' \<longrightarrow> currentValid c')
   \<and> (CurrentAccount c = n \<longrightarrow>
         Accounts (removeAccount c n) = filter (\<lambda>acc. Name acc \<noteq> n) (Accounts c)
       \<and> CurrentAccount (removeAccount c n) =
           (case Accounts (removeAccount c n) of [] \<Rightarrow> [] | x # xs \<Rightarrow> Name x)
       \<and> currentValid (removeAccount c n))
   \<and> (CurrentAccount c \<notin> Name ` set (Accounts c) \<longrightarrow>
         getAccount c (CurrentAccount c) = None
       \<and> (\<forall>s \<in> set (listStatus c). s = []))
   \<and> ((\<forall>a \<in> set accs. Name a \<noteq> ''ghost'') \<longrightarrow>
         getAccount \<lparr>Accounts = accs, CurrentAccount = ''ghost'', MigrationDone = m\<rparr> ''ghost'' = None
       \<and> listStatus \<lparr>Accounts = accs, CurrentAccount = ''ghost'', MigrationDone = m\<rparr>
           = replicate (length accs) [])"
proof (intro conjI impI)
  assume "currentValid c \<and> storeStep c c'"
  then show "currentValid c'" using storeStep_currentValid by blast
next
  show "Accounts (removeAccount c n) = filter (\<lambda>acc. Name acc \<noteq> n) (Accounts c)"
    by (rule removeAccount_accounts)
next
  assume "CurrentAccount c = n"
  then show "CurrentAccount (removeAccount c n) =
           (case Accounts (removeAccount c n) of [] \<Rightarrow> [] | x # xs \<Rightarrow> Name x)"
    by (simp add: removeAccount_current removeAccount_accounts)
next
  assume cur: "CurrentAccount c = n"
  show "currentValid (removeAccount c n)"
  proof (cases "filter (\<lambda>acc. Name acc \<noteq> n) (Accounts c)")
    case Nil
    with cur show ?thesis by (simp add: removeAccount_def Let_def currentValid_def)
  next
    case (Cons x xs)
    with cur show ?thesis by (simp add: removeAccount_def Let_def currentValid_def)
  qed
next
  assume "CurrentAccount c \<notin> Name ` set (Accounts c)"
  then show "getAccount c (CurrentAccount c) = None"
    by (simp add: getAccount_def getAccountIn_None)
next
  assume "CurrentAccount c \<notin> Name ` set (Accounts c)"
  then show "\<forall>s \<in> set (listStatus c). s = []" using listStatus_dangling by blast
next
  assume "\<forall>a \<in> set accs. Name a \<noteq> ''ghost''"
  then show "getAccount \<lparr>Accounts = accs, CurrentAccount = ''ghost'', MigrationDone = m\<rparr> ''ghost'' = None"
    by (auto simp: getAccount_def getAccountIn_None)
next
  assume "\<forall>a \<in> set accs. Name a \<noteq> ''ghost''"
  then show "listStatus \<lparr>Accounts = accs, CurrentAccount = ''ghost'', MigrationDone = m\<rparr>
           = replicate (length accs) []"
    by (induction accs) (auto simp: listStatus_def)
qed

theorem currentAccount_invariant_and_dangling_witness:
  "currentValid exampleStore
   \<and> storeStep exampleStore (removeAccount exampleStore ''work'')
   \<and> currentValid (removeAccount exampleStore ''work'')
   \<and> CurrentAccount (removeAccount exampleStore ''work'') = ''personal''
   \<and> CurrentAccount ghostStore \<notin> Name ` set (Accounts ghostStore)
   \<and> getAccount ghostStore ''ghost'' = None
   \<and> listStatus ghostStore = [[], []]"
proof -
  have v: "currentValid exampleStore"
    by (simp add: currentValid_def exampleStore_def acctWork_def acctPersonal_def)
  have g: "getAccount exampleStore ''work'' = Some acctWork"
    by (simp add: getAccount_def exampleStore_def acctWork_def acctPersonal_def)
  have st: "storeStep exampleStore (removeAccount exampleStore ''work'')"
    using g by (rule stepRemove)
  have cur: "CurrentAccount exampleStore = ''work''" by (simp add: exampleStore_def)
  note t1 = currentAccount_invariant_and_dangling
    [of exampleStore "removeAccount exampleStore ''work''" "''work''" "[]" True]
  from t1 v st have 1: "currentValid (removeAccount exampleStore ''work'')" by blast
  from t1 cur have "CurrentAccount (removeAccount exampleStore ''work'') =
      (case Accounts (removeAccount exampleStore ''work'') of [] \<Rightarrow> [] | x # xs \<Rightarrow> Name x)
      \<and> Accounts (removeAccount exampleStore ''work'')
          = filter (\<lambda>acc. Name acc \<noteq> ''work'') (Accounts exampleStore)"
    by blast
  then have 2: "CurrentAccount (removeAccount exampleStore ''work'') = ''personal''"
    by (simp add: exampleStore_def acctWork_def acctPersonal_def)
  have d: "CurrentAccount ghostStore \<notin> Name ` set (Accounts ghostStore)"
    by (simp add: ghostStore_def acctWork_def acctPersonal_def)
  have e: "\<forall>a \<in> set [acctPersonal, acctWork]. Name a \<noteq> ''ghost''"
    by (simp add: acctWork_def acctPersonal_def)
  note t2 = currentAccount_invariant_and_dangling
    [of ghostStore ghostStore "''ghost''" "[acctPersonal, acctWork]" True]
  from t2 e have "getAccount ghostStore ''ghost'' = None \<and> listStatus ghostStore = [[], []]"
    by (simp add: ghostStore_def)
  with v st 1 2 d show ?thesis by blast
qed

lemma isNotExist_osStat:
  "isNotExist (osStat w p) = (\<not> denied w p \<and> fs w p = None)"
  by (simp add: isNotExist_def osStat_def split: option.splits)

text \<open>
  Claim C10. When the config file does not exist, \<open>loadConfig\<close> succeeds with
  the fresh store (no accounts, empty current account, migration not done).
  It returns an error only for a path that is not reported missing and whose
  content cannot be read or cannot be decoded; a file that is read and decoded
  is returned.
\<close>

theorem loadConfig_missing_file_is_default:
  "(\<not> denied w (getConfigPath w) \<and> fs w (getConfigPath w) = None \<longrightarrow>
      loadConfig unmarshal w = Inr \<lparr>Accounts = [], CurrentAccount = [], MigrationDone = False\<rparr>)
   \<and> (loadConfig unmarshal w = Inl e \<longrightarrow>
        \<not> isNotExist (osStat w (getConfigPath w))
      \<and> ((\<exists>oe. osReadFile w (getConfigPath w) = Inl oe) \<and> e = IOFailure ''failed to read config''
         \<or> (\<exists>data. osReadFile w (getConfigPath w) = Inr data \<and> unmarshal data = None)
             \<and> e = IOFailure ''failed to parse config''))
   \<and> (\<not> isNotExist (osStat w (getConfigPath w))
        \<and> osReadFile w (getConfigPath w) = Inr data \<and> unmarshal data = Some c \<longrightarrow>
        loadConfig unmarshal w = Inr c)"
proof (intro conjI impI)
  assume "\<not> denied w (getConfigPath w) \<and> fs w (getConfigPath w) = None"
  then show "loadConfig unmarshal w = Inr \<lparr>Accounts = [], CurrentAccount = [], MigrationDone = False\<rparr>"
    by (simp add: loadConfig_def Let_def isNotExist_osStat)
next
  assume l: "loadConfig unmarshal w = Inl e"
  then show "\<not> isNotExist (osStat w (getConfigPath w))"
    by (auto simp: loadConfig_def Let_def split: if_splits)
next
  assume l: "loadConfig unmarshal w = Inl e"
  then show "(\<exists>oe. osReadFile w (getConfigPath w) = Inl oe) \<and> e = IOFailure ''failed to read config''
         \<or> (\<exists>data. osReadFile w (getConfigPath w) = Inr data \<and> unmarshal data = None)
             \<and> e = IOFailure ''failed to parse config''"
    by (auto simp: loadConfig_def Let_def split: if_splits sum.splits option.splits)
next
  assume "\<not> isNotExist (osStat w (getConfigPath w))
        \<and> osReadFile w (getConfigPath w) = Inr data \<and> unmarshal data = Some c"
  then show "loadConfig unmarshal w = Inr c"
    by (simp add: loadConfig_def Let_def)
qed

lemma getConfigPath_example: "getConfigPath exampleWorld = ''/home/u/.krakncat/config.json''"
  by (simp add: getConfigPath_def exampleWorld_def homeDirOrEmpty_def pathJoin_def pathClean_def Let_def)

theorem loadConfig_missing_file_is_default_witness:
  "\<not> denied exampleWorld (getConfigPath exampleWorld)
   \<and> fs exampleWorld (getConfigPath exampleWorld) = None
   \<and> loadConfig exampleUnmarshal exampleWorld
       = Inr \<lparr>Accounts = [], CurrentAccount = [], MigrationDone = False\<rparr>
   \<and> loadConfig exampleUnmarshal brokenConfigWorld = Inl (IOFailure ''failed to parse config'')
   \<and> \<not> isNotExist (osStat brokenConfigWorld (getConfigPath brokenConfigWorld))
   \<and> osReadFile savedConfigWorld (getConfigPath savedConfigWorld) = Inr ''{}''
   \<and> loadConfig exampleUnmarshal savedConfigWorld
       = Inr \<lparr>Accounts = [], CurrentAccount = [], MigrationDone = True\<rparr>"
proof -
  have p2: "getConfigPath brokenConfigWorld = ''/home/u/.krakncat/config.json''"
    by (simp add: getConfigPath_def brokenConfigWorld_def exampleWorld_def homeDirOrEmpty_def
        pathJoin_def pathClean_def Let_def)
  have p3: "getConfigPath savedConfigWorld = ''/home/u/.krakncat/config.json''"
    by (simp add: getConfigPath_def savedConfigWorld_def exampleWorld_def homeDirOrEmpty_def
        pathJoin_def pathClean_def Let_def)
  have a: "\<not> denied exampleWorld (getConfigPath exampleWorld)
      \<and> fs exampleWorld (getConfigPath exampleWorld) = None"
    by (simp add: getConfigPath_example) (simp add: exampleWorld_def)
  note t1 = loadConfig_missing_file_is_default [of exampleWorld exampleUnmarshal]
  from t1 a have 1: "loadConfig exampleUnmarshal exampleWorld
       = Inr \<lparr>Accounts = [], CurrentAccount = [], MigrationDone = False\<rparr>" by blast
  have b: "loadConfig exampleUnmarshal brokenConfigWorld = Inl (IOFailure ''failed to parse config'')"
    by (simp add: loadConfig_def p2 Let_def isNotExist_osStat osReadFile_def)
       (simp add: brokenConfigWorld_def exampleWorld_def exampleUnmarshal_def)
  note t2 = loadConfig_missing_file_is_default
    [of brokenConfigWorld exampleUnmarshal "IOFailure ''failed to parse config''"]
  from t2 b have 2: "\<not> isNotExist (osStat brokenConfigWorld (getConfigPath brokenConfigWorld))"
    by blast
  have r: "osReadFile savedConfigWorld (getConfigPath savedConfigWorld) = Inr ''{}''"
    by (simp add: p3 osReadFile_def) (simp add: savedConfigWorld_def exampleWorld_def)
  have n: "\<not> isNotExist (osStat savedConfigWorld (getConfigPath savedConfigWorld))"
    by (simp add: p3 isNotExist_osStat) (simp add: savedConfigWorld_def exampleWorld_def)
  have u: "exampleUnmarshal ''{}'' = Some \<lparr>Accounts = [], CurrentAccount = [], MigrationDone = True\<rparr>"
    by (simp add: exampleUnmarshal_def)
  note t3 = loadConfig_missing_file_is_default
    [of savedConfigWorld exampleUnmarshal _ "''{}''"
        "\<lparr>Accounts = [], CurrentAccount = [], MigrationDone = True\<rparr>"]
  from t3 n r u have 3: "loadConfig exampleUnmarshal savedConfigWorld
       = Inr \<lparr>Accounts = [], CurrentAccount = [], MigrationDone = True\<rparr>" by blast
  from a 1 b 2 r 3 show ?thesis by blast
qed

subsection \<open>Switching accounts\<close>

lemma setGitConfig_local_ok:
  "gitOK w [''-C'', p, ''config'', k, v] \<Longrightarrow>
   setGitConfig w k v p False
     = (True, w\<lparr>gitLocal := (gitLocal w)(p := (gitLocal w p)(k \<mapsto> v))\<rparr>)"
  by (simp add: setGitConfig_def)

text \<open>
  Claim C7. The command use with a path and without \<open>--global\<close> sets the
  identity at local scope. When the path holds no \<open>.git\<close> directory it fails
  with \<open>NotARepository\<close> and leaves the whole environment as it was, so no git
  configuration is changed. When the path holds a \<open>.git\<close> directory, the store
  loads, the account is found and the two runs of git succeed, \<open>user.name\<close>
  (the account's user name) and \<open>user.email\<close> are set in the configuration of
  that repository, and nothing else of git's configuration changes.
\<close>

theorem useCmd_local_requires_repository:
  "(\<not> isGitRepository w p \<longrightarrow>
      useCmd unmarshal marshal name (p # rest) False w = (Some NotARepository, w))
   \<and> (isGitRepository w p \<and> loadConfig unmarshal w = Inr c \<and> getAccount c name = Some a
       \<and> gitOK w [''-C'', p, ''config'', ''user.name'', Username a]
       \<and> gitOK w [''-C'', p, ''config'', ''user.email'', Email a] \<longrightarrow>
       (\<exists>w'. useCmd unmarshal marshal name (p # rest) False w = (None, w')
          \<and> gitLocal w' p ''user.name'' = Some (Username a)
          \<and> gitLocal w' p ''user.email'' = Some (Email a)
          \<and> (\<forall>q. q \<noteq> p \<longrightarrow> gitLocal w' q = gitLocal w q)
          \<and> gitGlobal w' = gitGlobal w
          \<and> fs w' = fs w))"
proof (intro conjI impI)
  assume "\<not> isGitRepository w p"
  then show "useCmd unmarshal marshal name (p # rest) False w = (Some NotARepository, w)"
    by (simp add: useCmd_def)
next
  assume h: "isGitRepository w p \<and> loadConfig unmarshal w = Inr c \<and> getAccount c name = Some a
       \<and> gitOK w [''-C'', p, ''config'', ''user.name'', Username a]
       \<and> gitOK w [''-C'', p, ''config'', ''user.email'', Email a]"
  let ?w1 = "w\<lparr>gitLocal := (gitLocal w)(p := (gitLocal w p)(''user.name'' \<mapsto> Username a))\<rparr>"
  let ?w2 = "?w1\<lparr>gitLocal := (gitLocal ?w1)(p := (gitLocal ?w1 p)(''user.email'' \<mapsto> Email a))\<rparr>"
  have s1: "setGitConfig w ''user.name'' (Username a) p False = (True, ?w1)"
    using h by (simp add: setGitConfig_local_ok)
  have "gitOK ?w1 [''-C'', p, ''config'', ''user.email'', Email a]" using h by simp
  then have s2: "setGitConfig ?w1 ''user.email'' (Email a) p False = (True, ?w2)"
    by (rule setGitConfig_local_ok)
  have r: "useCmd unmarshal marshal name (p # rest) False w = (None, ?w2)"
    using h by (simp add: useCmd_def Let_def s1 s2)
  have "gitLocal ?w2 p ''user.name'' = Some (Username a)
      \<and> gitLocal ?w2 p ''user.email'' = Some (Email a)
      \<and> (\<forall>q. q \<noteq> p \<longrightarrow> gitLocal ?w2 q = gitLocal w q)
      \<and> gitGlobal ?w2 = gitGlobal w \<and> fs ?w2 = fs w"
    by simp
  with r show "\<exists>w'. useCmd unmarshal marshal name (p # rest) False w = (None, w')
          \<and> gitLocal w' p ''user.name'' = Some (Username a)
          \<and> gitLocal w' p ''user.email'' = Some (Email a)
          \<and> (\<forall>q. q \<noteq> p \<longrightarrow> gitLocal w' q = gitLocal w q)
          \<and> gitGlobal w' = gitGlobal w
          \<and> fs w' = fs w"
    by blast
qed

lemma repoWorld_proj_is_repo: "isGitRepository repoWorld ''/home/u/proj''"
  by (simp add: isGitRepository_def osStat_def pathJoin_def pathClean_def Let_def)
     (simp add: repoWorld_def exampleWorld_def)

lemma repoWorld_notes_no_repo: "\<not> isGitRepository repoWorld ''/home/u/notes''"
  by (simp add: isGitRepository_def osStat_def pathJoin_def pathClean_def Let_def)
     (simp add: repoWorld_def exampleWorld_def)

lemma repoWorld_load: "loadConfig exampleUnmarshal repoWorld = Inr exampleStore"
proof -
  have p: "getConfigPath repoWorld = ''/home/u/.krakncat/config.json''"
    by (simp add: getConfigPath_def repoWorld_def exampleWorld_def homeDirOrEmpty_def
        pathJoin_def pathClean_def Let_def)
  show ?thesis
    by (simp add: loadConfig_def p Let_def isNotExist_osStat osReadFile_def)
       (simp add: repoWorld_def exampleWorld_def exampleUnmarshal_def)
qed

theorem useCmd_local_requires_repository_witness:
  "\<not> isGitRepository repoWorld ''/home/u/notes''
   \<and> useCmd exampleUnmarshal (\<lambda>c. []) ''work'' [''/home/u/notes''] False repoWorld
       = (Some NotARepository, repoWorld)
   \<and> isGitRepository repoWorld ''/home/u/proj''
   \<and> (\<exists>w'. useCmd exampleUnmarshal (\<lambda>c. []) ''work'' [''/home/u/proj''] False repoWorld = (None, w')
         \<and> gitLocal w' ''/home/u/proj'' ''user.name'' = Some ''me-work''
         \<and> gitLocal w' ''/home/u/proj'' ''user.email'' = Some ''me@work.com'')"
proof -
  note t1 = useCmd_local_requires_repository
    [of repoWorld "''/home/u/notes''" exampleUnmarshal "\<lambda>c. []" "''work''" "[]"]
  from t1 repoWorld_notes_no_repo
  have 1: "useCmd exampleUnmarshal (\<lambda>c. []) ''work'' [''/home/u/notes''] False repoWorld
       = (Some NotARepository, repoWorld)" by blast
  have g: "getAccount exampleStore ''work'' = Some acctWork"
    by (simp add: getAccount_def exampleStore_def acctWork_def acctPersonal_def)
  have ok: "gitOK repoWorld [''-C'', ''/home/u/proj'', ''config'', ''user.name'', Username acctWork]
      \<and> gitOK repoWorld [''-C'', ''/home/u/proj'', ''config'', ''user.email'', Email acctWork]"
    by (simp add: repoWorld_def exampleWorld_def)
  note t2 = useCmd_local_requires_repository
    [of repoWorld "''/home/u/proj''" exampleUnmarshal "\<lambda>c. []" "''work''" "[]" exampleStore acctWork]
  from t2 repoWorld_proj_is_repo repoWorld_load g ok
  have "\<exists>w'. useCmd exampleUnmarshal (\<lambda>c. []) ''work'' [''/home/u/proj''] False repoWorld = (None, w')
         \<and> gitLocal w' ''/home/u/proj'' ''user.name'' = Some (Username acctWork)
         \<and> gitLocal w' ''/home/u/proj'' ''user.email'' = Some (Email acctWork)"
    by blast
  then have 2: "\<exists>w'. useCmd exampleUnmarshal (\<lambda>c. []) ''work'' [''/home/u/proj''] False repoWorld = (None, w')
         \<and> gitLocal w' ''/home/u/proj'' ''user.name'' = Some ''me-work''
         \<and> gitLocal w' ''/home/u/proj'' ''user.email'' = Some ''me@work.com''"
    by (simp add: acctWork_def)
  from repoWorld_notes_no_repo 1 repoWorld_proj_is_repo 2 show ?thesis by blast
qed

subsection \<open>Discovery\<close>

lemma sshEntry_new:
  "sshEntry \<lparr>DName = [], DEmail = [], DUsername = u,
             Source = ''SSH Config ('' @ h @ '')'', Suggested = False\<rparr>"
  by (simp add: sshEntry_def)

lemma sshScan_entries:
  "\<forall>a\<in>set accounts. sshEntry a \<Longrightarrow> \<forall>a\<in>set (sshScan ls h u accounts). sshEntry a"
proof (induction ls arbitrary: h u accounts)
  case Nil
  then show ?case by simp
next
  case (Cons l ls)
  have ext: "\<forall>a\<in>set (accounts @ [\<lparr>DName = [], DEmail = [], DUsername = x,
             Source = ''SSH Config ('' @ hh @ '')'', Suggested = False\<rparr>]). sshEntry a" for x hh
    using Cons.prems sshEntry_new by auto
  show ?case
    using Cons.IH [OF Cons.prems] Cons.IH [OF ext]
    by (simp add: Let_def del: hasPrefix.simps)
qed

lemma discoverSSHAccounts_entries: "\<forall>a\<in>set (discoverSSHAccounts w). sshEntry a"
proof -
  have "\<forall>a\<in>set (sshScan ls [] [] []). sshEntry a" for ls
    by (rule sshScan_entries) simp
  then show ?thesis by (auto simp: discoverSSHAccounts_def split: option.splits sum.splits)
qed

lemma getGitConfigValue_fails: "\<not> gitOK w [''config'', ''--global'', ''--get'', k] \<Longrightarrow> getGitConfigValue w k True = []"
  by (simp add: getGitConfigValue_def)

lemma getGitConfigValue_unset: "gitGlobal w k = None \<Longrightarrow> getGitConfigValue w k True = []"
  by (simp add: getGitConfigValue_def)

lemma discoverSSHAccounts_missing:
  "home w = None \<or> (\<exists>e. osReadFile w (sshConfigPath w) = Inl e) \<Longrightarrow> discoverSSHAccounts w = []"
  by (auto simp: discoverSSHAccounts_def sshConfigPath_def homeDirOrEmpty_def split: option.splits)

text \<open>
  Claim C9. The discovery scan is a total function to a sequence: no file
  system state and no failure of git makes it fail. Its result is at most one
  entry from the global git configuration, present exactly when \<open>user.name\<close> or
  \<open>user.email\<close> is not empty, with source \<open>Global Git Config\<close> and marked as
  suggested, followed by the entries of the SSH config, none of which is
  suggested. Without a home directory or without a readable SSH config the second
  part is empty; when git fails or has no global values the first part is.
\<close>

theorem discoverExistingAccounts_total_and_ordered:
  "(\<exists>g. discoverExistingAccounts w = g @ discoverSSHAccounts w
        \<and> length g \<le> 1
        \<and> (g \<noteq> [] \<longleftrightarrow> getGitConfigValue w ''user.name'' True \<noteq> []
                        \<or> getGitConfigValue w ''user.email'' True \<noteq> [])
        \<and> (\<forall>a\<in>set g. Source a = ''Global Git Config'' \<and> Suggested a
              \<and> DName a = getGitConfigValue w ''user.name'' True
              \<and> DEmail a = getGitConfigValue w ''user.email'' True))
   \<and> (\<forall>a\<in>set (discoverSSHAccounts w). \<not> Suggested a \<and> hasPrefix (Source a) ''SSH Config ('')
   \<and> (home w = None \<or> (\<exists>e. osReadFile w (sshConfigPath w) = Inl e) \<longrightarrow>
        discoverSSHAccounts w = [])
   \<and> ((\<forall>k. \<not> gitOK w [''config'', ''--global'', ''--get'', k]) \<or> gitGlobal w = Map.empty \<longrightarrow>
        discoverExistingAccounts w = discoverSSHAccounts w)"
proof (intro conjI)
  let ?u = "getGitConfigValue w ''user.name'' True"
  let ?e = "getGitConfigValue w ''user.email'' True"
  let ?g = "if ?u \<noteq> [] \<or> ?e \<noteq> [] then
              [\<lparr>DName = ?u, DEmail = ?e, DUsername = [],
                Source = ''Global Git Config'', Suggested = True\<rparr>]
            else []"
  have 1: "discoverExistingAccounts w = ?g @ discoverSSHAccounts w"
    by (simp add: discoverExistingAccounts_def Let_def)
  have 2: "length ?g \<le> 1" by simp
  have 3: "?g \<noteq> [] \<longleftrightarrow> ?u \<noteq> [] \<or> ?e \<noteq> []" by simp
  have 4: "\<forall>a\<in>set ?g. Source a = ''Global Git Config'' \<and> Suggested a \<and> DName a = ?u \<and> DEmail a = ?e"
    by simp
  from 1 2 3 4 show "\<exists>g. discoverExistingAccounts w = g @ discoverSSHAccounts w
        \<and> length g \<le> 1
        \<and> (g \<noteq> [] \<longleftrightarrow> ?u \<noteq> [] \<or> ?e \<noteq> [])
        \<and> (\<forall>a\<in>set g. Source a = ''Global Git Config'' \<and> Suggested a
              \<and> DName a = ?u \<and> DEmail a = ?e)"
    by blast
next
  show "\<forall>a\<in>set (discoverSSHAccounts w). \<not> Suggested a \<and> hasPrefix (Source a) ''SSH Config (''"
    using discoverSSHAccounts_entries [of w] by (simp add: sshEntry_def del: hasPrefix.simps)
next
  show "home w = None \<or> (\<exists>e. osReadFile w (sshConfigPath w) = Inl e) \<longrightarrow>
        discoverSSHAccounts w = []"
    using discoverSSHAccounts_missing by blast
next
  show "(\<forall>k. \<not> gitOK w [''config'', ''--global'', ''--get'', k]) \<or> gitGlobal w = Map.empty \<longrightarrow>
        discoverExistingAccounts w = discoverSSHAccounts w"
    by (auto simp: discoverExistingAccounts_def Let_def getGitConfigValue_fails getGitConfigValue_unset)
qed

theorem discoverExistingAccounts_total_and_ordered_witness:
  "discoverExistingAccounts discoveryWorld =
     [\<lparr>DName = [], DEmail = ''me@home.org'', DUsername = [],
        Source = ''Global Git Config'', Suggested = True\<rparr>,
      \<lparr>DName = [], DEmail = [], DUsername = ''git'',
        Source = ''SSH Config (github.com-work)'', Suggested = False\<rparr>,
      \<lparr>DName = [], DEmail = [], DUsername = ''git'',
        Source = ''SSH Config (github.com-personal)'', Suggested = False\<rparr>]
   \<and> length (discoverSSHAccounts discoveryWorld) = 2
   \<and> Suggested (discoverSSHAccounts discoveryWorld ! 1) = False
   \<and> osReadFile exampleWorld (sshConfigPath exampleWorld) = Inl ErrNotExist
   \<and> gitGlobal exampleWorld = Map.empty
   \<and> discoverExistingAccounts exampleWorld = []"
proof -
  have v: "discoverExistingAccounts discoveryWorld =
     [\<lparr>DName = [], DEmail = ''me@home.org'', DUsername = [],
        Source = ''Global Git Config'', Suggested = True\<rparr>,
      \<lparr>DName = [], DEmail = [], DUsername = ''git'',
        Source = ''SSH Config (github.com-work)'', Suggested = False\<rparr>,
      \<lparr>DName = [], DEmail = [], DUsername = ''git'',
        Source = ''SSH Config (github.com-personal)'', Suggested = False\<rparr>]"
    by code_simp
  from discoverExistingAccounts_total_and_ordered [of discoveryWorld]
  have "\<forall>a\<in>set (discoverSSHAccounts discoveryWorld). \<not> Suggested a" by blast
  moreover have l: "length (discoverSSHAccounts discoveryWorld) = 2" by code_simp
  ultimately have s: "Suggested (discoverSSHAccounts discoveryWorld ! 1) = False" by simp
  have r: "osReadFile exampleWorld (sshConfigPath exampleWorld) = Inl ErrNotExist"
    by code_simp
  have g: "gitGlobal exampleWorld = Map.empty" by (simp add: exampleWorld_def)
  note t = discoverExistingAccounts_total_and_ordered [of exampleWorld]
  from t r have "discoverSSHAccounts exampleWorld = []" by blast
  moreover from t g have "discoverExistingAccounts exampleWorld = discoverSSHAccounts exampleWorld"
    by blast
  ultimately have e: "discoverExistingAccounts exampleWorld = []" by simp
  from v l s r g e show ?thesis by blast
qed

subsection \<open>Conditional includes\<close>












lemma includeSection_header:
  "includeSection pat p = [NL] @ includeHeader pat @ [NL, TAB] @ ''path = '' @ p @ [NL]"
  by (simp add: includeSection_def includeHeader_def)











subsection \<open>SSH keys and SSH config\<close>

lemma grows_refl: "grows w w"
  by (simp add: grows_def)

lemma grows_trans: "grows w w1 \<Longrightarrow> grows w1 w2 \<Longrightarrow> grows w w2"
  by (simp add: grows_def)

lemma osMkdirAll_grows: "osMkdirAll w p m = Inr w1 \<Longrightarrow> grows w w1"
  by (auto simp: osMkdirAll_def grows_def split: if_splits option.splits node.splits)

lemma ensureSSHDirectory_grows: "ensureSSHDirectory w = (r, w1) \<Longrightarrow> grows w w1"
  by (auto simp: ensureSSHDirectory_def grows_refl osMkdirAll_grows split: option.splits sum.splits)

lemma ensureSSHKeyDirectory_grows: "ensureSSHKeyDirectory w k = (r, w1) \<Longrightarrow> grows w w1"
  by (auto simp: ensureSSHKeyDirectory_def grows_refl osMkdirAll_grows split: sum.splits)

lemma grows_osStat: "grows w w1 \<Longrightarrow> osStat w p = Inr n \<Longrightarrow> osStat w1 p = Inr n"
  by (auto simp: grows_def osStat_def split: if_splits option.splits)

lemma osStat_Inr: "(osStat w p = Inr n) = (\<not> denied w p \<and> fs w p = Some n)"
  by (auto simp: osStat_def split: option.splits)

lemma generateSSHKeyPair_occupied:
  assumes occ: "osStat w keyPath = Inr n"
  shows "(\<exists>e. fst (generateSSHKeyPair email keyPath w) = Inl e)
       \<and> keygenCalls (snd (generateSSHKeyPair email keyPath w)) = keygenCalls w"
proof (cases "ensureSSHDirectory w")
  case (Pair r1 w1)
  then have g1: "grows w w1" by (rule ensureSSHDirectory_grows)
  show ?thesis
  proof (cases r1)
    case (Some e)
    with Pair g1 show ?thesis by (simp add: generateSSHKeyPair_def grows_def)
  next
    case None
    show ?thesis
    proof (cases "ensureSSHKeyDirectory w1 keyPath")
      case p2: (Pair r2 w2)
      then have g2: "grows w1 w2" by (rule ensureSSHKeyDirectory_grows)
      show ?thesis
      proof (cases r2)
        case (Some e)
        with Pair None p2 g1 g2 show ?thesis by (simp add: generateSSHKeyPair_def grows_def)
      next
        case n2: None
        from occ g1 g2 have "osStat w2 keyPath = Inr n" by (blast intro: grows_osStat)
        with Pair None p2 n2 g1 g2 show ?thesis by (simp add: generateSSHKeyPair_def grows_def)
      qed
    qed
  qed
qed

text \<open>
  Claim C6. Whenever the key path is occupied, \<open>generateSSHKey\<close> fails and
  ssh-keygen is not run; the failure is \<open>AlreadyExists\<close> once the SSH directory
  and the directory of the key have been ensured (the two steps before the
  check). With a free key path, ssh-keygen is run exactly once, with the
  arguments \<open>-t ed25519 -C <comment> -f <path> -q -N ""\<close>; a non-zero exit
  gives \<open>GenerationFailed\<close>; after a zero exit the result is the content of
  \<open><path>.pub\<close>, and an error when that file cannot be read.
\<close>

theorem generateSSHKey_key_exists_or_generated:
  "(osStat w keyPath = Inr n \<longrightarrow>
       (\<exists>e. fst (generateSSHKeyPair email keyPath w) = Inl e)
     \<and> keygenCalls (snd (generateSSHKeyPair email keyPath w)) = keygenCalls w)
   \<and> (ensureSSHDirectory w = (None, w1) \<and> ensureSSHKeyDirectory w1 keyPath = (None, w2) \<longrightarrow>
        (osStat w keyPath = Inr n \<or> osStat w2 keyPath = Inr n \<longrightarrow>
           generateSSHKeyPair email keyPath w = (Inl AlreadyExists, w2)
         \<and> keygenCalls w2 = keygenCalls w)
      \<and> (osStat w2 keyPath = Inl oe \<longrightarrow>
           keygenCalls (snd (generateSSHKeyPair email keyPath w))
             = keygenCalls w @ [[''-t'', ''ed25519'', ''-C'', email, ''-f'', keyPath, ''-q'', ''-N'', []]]
         \<and> (\<not> fst (sshKeygen w2 (keygenArgs email keyPath) (fs w2)) \<longrightarrow>
              fst (generateSSHKeyPair email keyPath w) = Inl GenerationFailed)
         \<and> (fst (sshKeygen w2 (keygenArgs email keyPath) (fs w2)) \<longrightarrow>
              (\<forall>pubKey. fst (generateSSHKeyPair email keyPath w) = Inr pubKey \<longleftrightarrow>
                 osReadFile (snd (generateSSHKeyPair email keyPath w)) (keyPath @ ''.pub'') = Inr pubKey)
            \<and> ((\<exists>e. osReadFile (snd (generateSSHKeyPair email keyPath w)) (keyPath @ ''.pub'') = Inl e) \<longrightarrow>
                 fst (generateSSHKeyPair email keyPath w) = Inl (IOFailure ''could not read public key'')))))"
proof (intro conjI impI)
  assume "osStat w keyPath = Inr n"
  then show "\<exists>e. fst (generateSSHKeyPair email keyPath w) = Inl e"
    using generateSSHKeyPair_occupied by blast
next
  assume "osStat w keyPath = Inr n"
  then show "keygenCalls (snd (generateSSHKeyPair email keyPath w)) = keygenCalls w"
    using generateSSHKeyPair_occupied by blast
next
  assume d: "ensureSSHDirectory w = (None, w1) \<and> ensureSSHKeyDirectory w1 keyPath = (None, w2)"
    and o: "osStat w keyPath = Inr n \<or> osStat w2 keyPath = Inr n"
  from d have g: "grows w w2"
    using ensureSSHDirectory_grows ensureSSHKeyDirectory_grows grows_trans by blast
  with o have "osStat w2 keyPath = Inr n" using grows_osStat by blast
  with d show "generateSSHKeyPair email keyPath w = (Inl AlreadyExists, w2)"
    by (simp add: generateSSHKeyPair_def)
next
  assume d: "ensureSSHDirectory w = (None, w1) \<and> ensureSSHKeyDirectory w1 keyPath = (None, w2)"
  then have "grows w w2"
    using ensureSSHDirectory_grows ensureSSHKeyDirectory_grows grows_trans by blast
  then show "keygenCalls w2 = keygenCalls w" by (simp add: grows_def)
next
  assume d: "ensureSSHDirectory w = (None, w1) \<and> ensureSSHKeyDirectory w1 keyPath = (None, w2)"
    and o: "osStat w2 keyPath = Inl oe"
  from d have "grows w w2"
    using ensureSSHDirectory_grows ensureSSHKeyDirectory_grows grows_trans by blast
  then have k: "keygenCalls w2 = keygenCalls w" by (simp add: grows_def)
  show "keygenCalls (snd (generateSSHKeyPair email keyPath w))
             = keygenCalls w @ [[''-t'', ''ed25519'', ''-C'', email, ''-f'', keyPath, ''-q'', ''-N'', []]]"
    using d o k
    by (simp add: generateSSHKeyPair_def runSSHKeygen_def keygenArgs_def Let_def
        split: prod.splits bool.splits sum.splits)
next
  assume d: "ensureSSHDirectory w = (None, w1) \<and> ensureSSHKeyDirectory w1 keyPath = (None, w2)"
    and o: "osStat w2 keyPath = Inl oe"
    and f: "\<not> fst (sshKeygen w2 (keygenArgs email keyPath) (fs w2))"
  then show "fst (generateSSHKeyPair email keyPath w) = Inl GenerationFailed"
    by (auto simp: generateSSHKeyPair_def runSSHKeygen_def Let_def split: prod.splits)
next
  assume d: "ensureSSHDirectory w = (None, w1) \<and> ensureSSHKeyDirectory w1 keyPath = (None, w2)"
    and o: "osStat w2 keyPath = Inl oe"
    and f: "fst (sshKeygen w2 (keygenArgs email keyPath) (fs w2))"
  then show "\<forall>pubKey. fst (generateSSHKeyPair email keyPath w) = Inr pubKey \<longleftrightarrow>
                 osReadFile (snd (generateSSHKeyPair email keyPath w)) (keyPath @ ''.pub'') = Inr pubKey"
    by (auto simp: generateSSHKeyPair_def runSSHKeygen_def Let_def split: prod.splits sum.splits)
next
  assume d: "ensureSSHDirectory w = (None, w1) \<and> ensureSSHKeyDirectory w1 keyPath = (None, w2)"
    and o: "osStat w2 keyPath = Inl oe"
    and f: "fst (sshKeygen w2 (keygenArgs email keyPath) (fs w2))"
    and r: "\<exists>e. osReadFile (snd (generateSSHKeyPair email keyPath w)) (keyPath @ ''.pub'') = Inl e"
  then show "fst (generateSSHKeyPair email keyPath w) = Inl (IOFailure ''could not read public key'')"
    by (auto simp: generateSSHKeyPair_def runSSHKeygen_def Let_def split: prod.splits sum.splits)
qed

theorem generateSSHKey_key_exists_or_generated_witness:
  "osStat keyWorld workKey = Inr (File (mode 6 0 0) ''PRIVATE KEY'')
   \<and> generateSSHKeyPair ''me@work.com'' workKey keyWorld = (Inl AlreadyExists, keyWorld)
   \<and> keygenCalls (snd (generateSSHKeyPair ''me@work.com'' workKey keyWorld)) = []
   \<and> osStat exampleWorld workKey = Inl ErrNotExist
   \<and> keygenCalls (snd (generateSSHKeyPair ''me@work.com'' workKey exampleWorld))
       = [[''-t'', ''ed25519'', ''-C'', ''me@work.com'', ''-f'', workKey, ''-q'', ''-N'', []]]
   \<and> fst (generateSSHKeyPair ''me@work.com'' workKey exampleWorld) = Inr ''ssh-ed25519 AAAA''
   \<and> fst (generateSSHKeyPair ''me@work.com'' workKey noKeygenWorld) = Inl GenerationFailed"
proof -
  let ?e = "''me@work.com''"
  have o: "osStat keyWorld workKey = Inr (File (mode 6 0 0) ''PRIVATE KEY'')" by code_simp
  have k1: "ensureSSHDirectory keyWorld = (None, keyWorld)"
    by (simp add: ensureSSHDirectory_def osMkdirAll_def pathJoin_def pathClean_def Let_def
        keyWorld_def exampleWorld_def workKey_def)
  have k2: "ensureSSHKeyDirectory keyWorld workKey = (None, keyWorld)"
    by (simp add: ensureSSHKeyDirectory_def osMkdirAll_def pathDir_def pathClean_def Let_def
        keyWorld_def exampleWorld_def workKey_def)
  have c0: "keygenCalls keyWorld = []" by (simp add: keyWorld_def exampleWorld_def)
  note t1 = generateSSHKey_key_exists_or_generated
    [of keyWorld workKey "File (mode 6 0 0) ''PRIVATE KEY''" ?e keyWorld keyWorld]
  from t1 o k1 k2 have 1: "generateSSHKeyPair ?e workKey keyWorld = (Inl AlreadyExists, keyWorld)"
    by blast
  from t1 o c0 have 2: "keygenCalls (snd (generateSSHKeyPair ?e workKey keyWorld)) = []"
    by simp
  let ?w1 = "snd (ensureSSHDirectory exampleWorld)"
  let ?w2 = "snd (ensureSSHKeyDirectory ?w1 workKey)"
  have "fst (ensureSSHDirectory exampleWorld) = None" by code_simp
  then have e1: "ensureSSHDirectory exampleWorld = (None, ?w1)" by (simp add: prod_eq_iff)
  have "fst (ensureSSHKeyDirectory ?w1 workKey) = None" by code_simp
  then have e2: "ensureSSHKeyDirectory ?w1 workKey = (None, ?w2)" by (simp add: prod_eq_iff)
  have f: "osStat ?w2 workKey = Inl ErrNotExist" by code_simp
  have f0: "osStat exampleWorld workKey = Inl ErrNotExist" by code_simp
  have kg: "fst (sshKeygen ?w2 (keygenArgs ?e workKey) (fs ?w2))" by code_simp
  have rd: "osReadFile (snd (generateSSHKeyPair ?e workKey exampleWorld)) (workKey @ ''.pub'')
      = Inr ''ssh-ed25519 AAAA''" by code_simp
  have ce: "keygenCalls exampleWorld = []" by (simp add: exampleWorld_def)
  note t2 = generateSSHKey_key_exists_or_generated
    [of exampleWorld workKey _ ?e ?w1 ?w2 ErrNotExist]
  from t2 e1 e2 f have "keygenCalls (snd (generateSSHKeyPair ?e workKey exampleWorld))
      = keygenCalls exampleWorld @ [[''-t'', ''ed25519'', ''-C'', ?e, ''-f'', workKey, ''-q'', ''-N'', []]]"
    by blast
  then have 3: "keygenCalls (snd (generateSSHKeyPair ?e workKey exampleWorld))
      = [[''-t'', ''ed25519'', ''-C'', ?e, ''-f'', workKey, ''-q'', ''-N'', []]]"
    by (simp add: ce)
  from t2 e1 e2 f kg rd have 4: "fst (generateSSHKeyPair ?e workKey exampleWorld) = Inr ''ssh-ed25519 AAAA''"
    by blast
  let ?n1 = "snd (ensureSSHDirectory noKeygenWorld)"
  let ?n2 = "snd (ensureSSHKeyDirectory ?n1 workKey)"
  have "fst (ensureSSHDirectory noKeygenWorld) = None" by code_simp
  then have n1: "ensureSSHDirectory noKeygenWorld = (None, ?n1)" by (simp add: prod_eq_iff)
  have "fst (ensureSSHKeyDirectory ?n1 workKey) = None" by code_simp
  then have n2: "ensureSSHKeyDirectory ?n1 workKey = (None, ?n2)" by (simp add: prod_eq_iff)
  have nf: "osStat ?n2 workKey = Inl ErrNotExist" by code_simp
  have nk: "\<not> fst (sshKeygen ?n2 (keygenArgs ?e workKey) (fs ?n2))" by code_simp
  note t3 = generateSSHKey_key_exists_or_generated
    [of noKeygenWorld workKey _ ?e ?n1 ?n2 ErrNotExist]
  from t3 n1 n2 nf nk have 5: "fst (generateSSHKeyPair ?e workKey noKeygenWorld) = Inl GenerationFailed"
    by blast
  from o 1 2 f0 3 4 5 show ?thesis by blast
qed

lemma grows_osReadFile: "grows w w1 \<Longrightarrow> osReadFile w p = Inr c \<Longrightarrow> osReadFile w1 p = Inr c"
  by (auto simp: grows_def osReadFile_def split: if_splits option.splits node.splits)

lemma generateSSHKeyPair_occupied_grows:
  assumes occ: "osStat w keyPath = Inr n"
  shows "grows w (snd (generateSSHKeyPair email keyPath w))"
proof (cases "ensureSSHDirectory w")
  case (Pair r1 w1)
  then have g1: "grows w w1" by (rule ensureSSHDirectory_grows)
  show ?thesis
  proof (cases r1)
    case (Some e)
    with Pair g1 show ?thesis by (simp add: generateSSHKeyPair_def)
  next
    case None
    show ?thesis
    proof (cases "ensureSSHKeyDirectory w1 keyPath")
      case p2: (Pair r2 w2)
      then have "grows w1 w2" by (rule ensureSSHKeyDirectory_grows)
      with g1 have g2: "grows w w2" by (rule grows_trans)
      show ?thesis
      proof (cases r2)
        case (Some e)
        with Pair None p2 g2 show ?thesis by (simp add: generateSSHKeyPair_def)
      next
        case n2: None
        from occ g2 have "osStat w2 keyPath = Inr n" by (blast intro: grows_osStat)
        with Pair None p2 n2 g2 show ?thesis by (simp add: generateSSHKeyPair_def)
      qed
    qed
  qed
qed

lemma generateSSHKey_occupied:
  assumes occ: "osStat w keyPath = Inr n"
  shows "(\<exists>e. fst (generateSSHKey name email keyPath resp w) = Inl e)
       \<and> grows w (snd (generateSSHKey name email keyPath resp w))"
proof -
  from generateSSHKeyPair_occupied [OF occ, of email] obtain e where
    e: "fst (generateSSHKeyPair email keyPath w) = Inl e" by blast
  then have "generateSSHKey name email keyPath resp w = generateSSHKeyPair email keyPath w"
    by (cases "generateSSHKeyPair email keyPath w") (simp add: generateSSHKey_def)
  with e generateSSHKeyPair_occupied_grows [OF occ, of email] show ?thesis by auto
qed

lemma appendSSHConfig_appends:
  assumes ans: "toLower (trimSpace resp) = ''y'' \<or> toLower (trimSpace resp) = []"
    and dir: "ensureSSHDirectory w = (None, w1)"
    and nd: "\<not> denied w1 (sshConfigPath w1)"
  shows "(fs w1 (sshConfigPath w1) = None \<longrightarrow>
            (\<exists>w2. appendSSHConfig name keyPath resp w = (None, w2)
               \<and> fs w2 (sshConfigPath w1) = Some (File (mode 6 4 4) (sshConfigSnippet name keyPath))))
       \<and> (fs w1 (sshConfigPath w1) = Some (File m c) \<longrightarrow>
            (\<exists>w2. appendSSHConfig name keyPath resp w = (None, w2)
               \<and> fs w2 (sshConfigPath w1) = Some (File m (c @ sshConfigSnippet name keyPath))))"
  using ans dir nd
  by (auto simp: appendSSHConfig_def Let_def osAppendFile_def)

lemma generateSSHKey_occupied_same:
  assumes occ: "osStat w keyPath = Inr n"
  shows "generateSSHKey name email keyPath resp w = generateSSHKeyPair email keyPath w"
proof -
  from generateSSHKeyPair_occupied [OF occ, of email] obtain e where
    "fst (generateSSHKeyPair email keyPath w) = Inl e" by blast
  then show ?thesis
    by (cases "generateSSHKeyPair email keyPath w") (simp add: generateSSHKey_def)
qed

lemma generateSSHKeyPair_already_exists:
  assumes occ: "osStat w keyPath = Inr n"
    and d1: "ensureSSHDirectory w = (None, wa)"
    and d2: "ensureSSHKeyDirectory wa keyPath = (None, wb)"
  shows "generateSSHKeyPair email keyPath w = (Inl AlreadyExists, wb)"
proof -
  from d1 d2 have "grows w wb"
    using ensureSSHDirectory_grows ensureSSHKeyDirectory_grows grows_trans by blast
  with occ have "osStat wb keyPath = Inr n" by (rule grows_osStat [rotated])
  with d1 d2 show ?thesis by (simp add: generateSSHKeyPair_def)
qed

lemma generateSSHKey_appends:
  assumes kp: "generateSSHKeyPair email keyPath w = (Inr pubKey, w0)"
    and ans: "toLower (trimSpace resp) = ''y'' \<or> toLower (trimSpace resp) = []"
    and dir: "ensureSSHDirectory w0 = (None, w1)"
    and nd: "\<not> denied w1 (sshConfigPath w1)"
    and f: "fs w1 (sshConfigPath w1) = Some (File m c)"
  shows "\<exists>w2. generateSSHKey name email keyPath resp w = (Inr pubKey, w2)
     \<and> fs w2 (sshConfigPath w1) = Some (File m (c @ sshConfigSnippet name keyPath))"
proof -
  from appendSSHConfig_appends [OF ans dir nd, of name keyPath m c] f
  obtain w2 where a: "appendSSHConfig name keyPath resp w0 = (None, w2)"
    and r: "fs w2 (sshConfigPath w1) = Some (File m (c @ sshConfigSnippet name keyPath))"
    by blast
  from kp a have "generateSSHKey name email keyPath resp w = (Inr pubKey, w2)"
    by (simp add: generateSSHKey_def)
  with r show ?thesis by blast
qed

text \<open>
  Claim C2, as the code has it. \<open>generateSSHKey\<close> does not scan the SSH
  config. When the key pair has been generated, the user answers \<open>y\<close> or
  nothing, the SSH directory is ensured and the SSH config is a file that is not
  refused, the call appends the Host block at the end of whatever the file
  holds. A call for a key path that is occupied returns an error, runs no
  ssh-keygen and leaves the content of every readable file as it was; the error
  is \<open>AlreadyExists\<close> once the two directory steps succeed. In particular a second
  call for the same key path, after a first call that succeeded and left the key
  file at that path, fails and leaves the SSH config as the first call left it.
\<close>

theorem generateSSHKey_appends_without_scan:
  "(generateSSHKeyPair email keyPath w = (Inr pubKey, w0)
      \<and> (toLower (trimSpace resp) = ''y'' \<or> toLower (trimSpace resp) = [])
      \<and> ensureSSHDirectory w0 = (None, w1) \<and> \<not> denied w1 (sshConfigPath w1)
      \<and> fs w1 (sshConfigPath w1) = Some (File m c) \<longrightarrow>
      (\<exists>w2. generateSSHKey name email keyPath resp w = (Inr pubKey, w2)
         \<and> fs w2 (sshConfigPath w1) = Some (File m (c @ sshConfigSnippet name keyPath))))
   \<and> (osStat w keyPath = Inr n \<longrightarrow>
        (\<exists>e. fst (generateSSHKey name email keyPath resp w) = Inl e)
      \<and> keygenCalls (snd (generateSSHKey name email keyPath resp w)) = keygenCalls w
      \<and> (\<forall>p body. osReadFile w p = Inr body \<longrightarrow>
            osReadFile (snd (generateSSHKey name email keyPath resp w)) p = Inr body))
   \<and> (osStat w keyPath = Inr n \<and> ensureSSHDirectory w = (None, wa)
        \<and> ensureSSHKeyDirectory wa keyPath = (None, wb) \<longrightarrow>
        generateSSHKey name email keyPath resp w = (Inl AlreadyExists, wb))
   \<and> (generateSSHKey name email keyPath resp w = (Inr pubKey, w') \<and> osStat w' keyPath = Inr n \<longrightarrow>
        (\<exists>e. fst (generateSSHKey name email keyPath resp2 w') = Inl e)
      \<and> (\<forall>body. osReadFile w' (sshConfigPath w') = Inr body \<longrightarrow>
            osReadFile (snd (generateSSHKey name email keyPath resp2 w')) (sshConfigPath w')
              = Inr body))"
proof (intro conjI impI allI)
  assume "generateSSHKeyPair email keyPath w = (Inr pubKey, w0)
      \<and> (toLower (trimSpace resp) = ''y'' \<or> toLower (trimSpace resp) = [])
      \<and> ensureSSHDirectory w0 = (None, w1) \<and> \<not> denied w1 (sshConfigPath w1)
      \<and> fs w1 (sshConfigPath w1) = Some (File m c)"
  then show "\<exists>w2. generateSSHKey name email keyPath resp w = (Inr pubKey, w2)
         \<and> fs w2 (sshConfigPath w1) = Some (File m (c @ sshConfigSnippet name keyPath))"
    using generateSSHKey_appends by blast
next
  assume "osStat w keyPath = Inr n"
  then show "\<exists>e. fst (generateSSHKey name email keyPath resp w) = Inl e"
    using generateSSHKey_occupied by blast
next
  assume occ: "osStat w keyPath = Inr n"
  then show "keygenCalls (snd (generateSSHKey name email keyPath resp w)) = keygenCalls w"
    using generateSSHKeyPair_occupied [OF occ, of email]
    by (simp add: generateSSHKey_occupied_same [OF occ])
next
  fix p body
  assume "osStat w keyPath = Inr n" and "osReadFile w p = Inr body"
  then show "osReadFile (snd (generateSSHKey name email keyPath resp w)) p = Inr body"
    using generateSSHKey_occupied grows_osReadFile by blast
next
  assume h: "osStat w keyPath = Inr n \<and> ensureSSHDirectory w = (None, wa)
        \<and> ensureSSHKeyDirectory wa keyPath = (None, wb)"
  then have occ: "osStat w keyPath = Inr n" by blast
  from h have "generateSSHKeyPair email keyPath w = (Inl AlreadyExists, wb)"
    using generateSSHKeyPair_already_exists by blast
  then show "generateSSHKey name email keyPath resp w = (Inl AlreadyExists, wb)"
    by (simp add: generateSSHKey_occupied_same [OF occ])
next
  assume "generateSSHKey name email keyPath resp w = (Inr pubKey, w') \<and> osStat w' keyPath = Inr n"
  then show "\<exists>e. fst (generateSSHKey name email keyPath resp2 w') = Inl e"
    using generateSSHKey_occupied by blast
next
  fix body
  assume "generateSSHKey name email keyPath resp w = (Inr pubKey, w') \<and> osStat w' keyPath = Inr n"
    and "osReadFile w' (sshConfigPath w') = Inr body"
  then show "osReadFile (snd (generateSSHKey name email keyPath resp2 w')) (sshConfigPath w')
              = Inr body"
    using generateSSHKey_occupied grows_osReadFile by blast
qed

theorem generateSSHKey_appends_without_scan_witness:
  "toLower (trimSpace ''y'') = ''y''
   \<and> fst (generateSSHKeyPair ''me@work.com'' workKey keysRemoved) = Inr ''ssh-ed25519 AAAA''
   \<and> fst (generateSSHKey ''work'' ''me@work.com'' workKey ''y'' keysRemoved) = Inr ''ssh-ed25519 AAAA''
   \<and> fs (snd (generateSSHKey ''work'' ''me@work.com'' workKey ''y'' keysRemoved)) ''/home/u/.ssh/config''
       = Some (File (mode 6 4 4) (sshConfigSnippet ''work'' workKey @ sshConfigSnippet ''work'' workKey))
   \<and> generateSSHKey ''work'' ''me@work.com'' workKey ''y'' exampleWorld
       = (Inr ''ssh-ed25519 AAAA'', firstRun)
   \<and> osStat firstRun workKey = Inr (File (mode 6 0 0) ''PRIVATE KEY'')
   \<and> fst (generateSSHKey ''work'' ''me@work.com'' workKey ''y'' firstRun) = Inl AlreadyExists
   \<and> keygenCalls (snd (generateSSHKey ''work'' ''me@work.com'' workKey ''y'' firstRun))
       = keygenCalls firstRun
   \<and> osReadFile (snd (generateSSHKey ''work'' ''me@work.com'' workKey ''y'' firstRun))
        ''/home/u/.ssh/config'' = Inr (sshConfigSnippet ''work'' workKey)
   \<and> countOcc (sshConfigSnippet ''work'' workKey) ''Host github.com-work'' = 1"
proof -
  let ?snip = "sshConfigSnippet ''work'' workKey"
  let ?e = "''me@work.com''"
  let ?w0 = "snd (generateSSHKeyPair ?e workKey keysRemoved)"
  let ?w1 = "snd (ensureSSHDirectory ?w0)"
  have y: "toLower (trimSpace ''y'') = ''y''" by code_simp
  have k0: "fst (generateSSHKeyPair ?e workKey keysRemoved) = Inr ''ssh-ed25519 AAAA''"
    by code_simp
  then have k: "generateSSHKeyPair ?e workKey keysRemoved = (Inr ''ssh-ed25519 AAAA'', ?w0)"
    by (simp add: prod_eq_iff)
  have "fst (ensureSSHDirectory ?w0) = None" by code_simp
  then have d: "ensureSSHDirectory ?w0 = (None, ?w1)" by (simp add: prod_eq_iff)
  have cp: "sshConfigPath ?w1 = ''/home/u/.ssh/config''" by code_simp
  have nd: "\<not> denied ?w1 (sshConfigPath ?w1)" by code_simp
  have f: "fs ?w1 (sshConfigPath ?w1) = Some (File (mode 6 4 4) ?snip)" by code_simp
  note t1 = generateSSHKey_appends_without_scan
    [where email = ?e and keyPath = workKey and w = keysRemoved and pubKey = "''ssh-ed25519 AAAA''"
       and ?w0.0 = ?w0 and resp = "''y''" and ?w1.0 = ?w1 and m = "mode 6 4 4" and c = ?snip
       and name = "''work''"]
  from t1 k y d nd f have "\<exists>w2. generateSSHKey ''work'' ?e workKey ''y'' keysRemoved
        = (Inr ''ssh-ed25519 AAAA'', w2)
      \<and> fs w2 (sshConfigPath ?w1) = Some (File (mode 6 4 4) (?snip @ ?snip))"
    by blast
  then have 1: "fst (generateSSHKey ''work'' ?e workKey ''y'' keysRemoved) = Inr ''ssh-ed25519 AAAA''
      \<and> fs (snd (generateSSHKey ''work'' ?e workKey ''y'' keysRemoved)) ''/home/u/.ssh/config''
          = Some (File (mode 6 4 4) (?snip @ ?snip))"
    by (auto simp: cp)
  have "fst (generateSSHKey ''work'' ?e workKey ''y'' exampleWorld) = Inr ''ssh-ed25519 AAAA''"
    by code_simp
  then have g: "generateSSHKey ''work'' ?e workKey ''y'' exampleWorld
      = (Inr ''ssh-ed25519 AAAA'', firstRun)"
    by (simp add: prod_eq_iff firstRun_def)
  have o: "osStat firstRun workKey = Inr (File (mode 6 0 0) ''PRIVATE KEY'')" by code_simp
  have cf: "sshConfigPath firstRun = ''/home/u/.ssh/config''" by code_simp
  have r: "osReadFile firstRun (sshConfigPath firstRun) = Inr ?snip" by code_simp
  let ?wa = "snd (ensureSSHDirectory firstRun)"
  let ?wb = "snd (ensureSSHKeyDirectory ?wa workKey)"
  have "fst (ensureSSHDirectory firstRun) = None" by code_simp
  then have da: "ensureSSHDirectory firstRun = (None, ?wa)" by (simp add: prod_eq_iff)
  have "fst (ensureSSHKeyDirectory ?wa workKey) = None" by code_simp
  then have db: "ensureSSHKeyDirectory ?wa workKey = (None, ?wb)" by (simp add: prod_eq_iff)
  note t2 = generateSSHKey_appends_without_scan
    [where w = firstRun and name = "''work''" and keyPath = workKey
       and n = "File (mode 6 0 0) ''PRIVATE KEY''" and email = ?e and resp = "''y''"
       and wa = ?wa and wb = ?wb]
  from t2 o da db have "generateSSHKey ''work'' ?e workKey ''y'' firstRun = (Inl AlreadyExists, ?wb)"
    by blast
  then have 2: "fst (generateSSHKey ''work'' ?e workKey ''y'' firstRun) = Inl AlreadyExists"
    by simp
  from t2 o have 3: "keygenCalls (snd (generateSSHKey ''work'' ?e workKey ''y'' firstRun))
      = keygenCalls firstRun"
    by blast
  note t4 = generateSSHKey_appends_without_scan
    [where w = exampleWorld and w' = firstRun and name = "''work''" and keyPath = workKey
       and n = "File (mode 6 0 0) ''PRIVATE KEY''" and email = ?e and resp = "''y''"
       and ?resp2.0 = "''y''" and pubKey = "''ssh-ed25519 AAAA''"]
  from t4 g o r have "osReadFile (snd (generateSSHKey ''work'' ?e workKey ''y'' firstRun))
      (sshConfigPath firstRun) = Inr ?snip"
    by blast
  then have 4: "osReadFile (snd (generateSSHKey ''work'' ?e workKey ''y'' firstRun))
      ''/home/u/.ssh/config'' = Inr ?snip"
    by (simp add: cf)
  have c: "countOcc ?snip ''Host github.com-work'' = 1" by code_simp
  from y k0 1 g o 2 3 4 c show ?thesis by blast
qed

text \<open>
  The claim as stated fails: after a first run, the removal of the key files
  (as the command remove offers) and a second run for the same account, the SSH
  config holds the line \<open>Host github.com-work\<close> twice.
\<close>

theorem generateSSHKey_duplicate_host_block:
  "fst (generateSSHKey ''work'' ''me@work.com'' workKey ''y'' exampleWorld) = Inr ''ssh-ed25519 AAAA''
   \<and> fst (generateSSHKey ''work'' ''me@work.com'' workKey ''y'' keysRemoved) = Inr ''ssh-ed25519 AAAA''
   \<and> osReadFile secondRun ''/home/u/.ssh/config''
       = Inr (sshConfigSnippet ''work'' workKey @ sshConfigSnippet ''work'' workKey)
   \<and> countOcc (sshConfigSnippet ''work'' workKey @ sshConfigSnippet ''work'' workKey)
        ''Host github.com-work'' = 2"
  by code_simp

lemma ensureSSHDirectory_creates:
  "home w = Some h \<Longrightarrow> \<not> denied w (pathJoin [h, ''.ssh'']) \<Longrightarrow> fs w (pathJoin [h, ''.ssh'']) = None \<Longrightarrow>
   \<exists>w1. ensureSSHDirectory w = (None, w1) \<and> fs w1 (pathJoin [h, ''.ssh'']) = Some (Dir (mode 7 0 0))"
  by (simp add: ensureSSHDirectory_def osMkdirAll_def)

text \<open>
  Claim C8, as the code has it. A missing SSH directory is created with mode
  0700. A missing SSH config is created, when the Host block is appended, with
  mode 0644, which is not 0600.
\<close>

theorem ssh_directory_and_config_permissions:
  "(home w = Some h \<and> \<not> denied w (pathJoin [h, ''.ssh'']) \<and> fs w (pathJoin [h, ''.ssh'']) = None \<longrightarrow>
      (\<exists>w1. ensureSSHDirectory w = (None, w1)
         \<and> nodeMode (fs w1 (pathJoin [h, ''.ssh''])) = Some (mode 7 0 0)))
   \<and> ((toLower (trimSpace resp) = ''y'' \<or> toLower (trimSpace resp) = [])
        \<and> ensureSSHDirectory w = (None, w1) \<and> \<not> denied w1 (sshConfigPath w1)
        \<and> fs w1 (sshConfigPath w1) = None \<longrightarrow>
        (\<exists>w2. appendSSHConfig name keyPath resp w = (None, w2)
           \<and> nodeMode (fs w2 (sshConfigPath w1)) = Some (mode 6 4 4)))
   \<and> mode 6 4 4 \<noteq> mode 6 0 0"
proof (intro conjI impI)
  assume "home w = Some h \<and> \<not> denied w (pathJoin [h, ''.ssh'']) \<and> fs w (pathJoin [h, ''.ssh'']) = None"
  then obtain w1 where "ensureSSHDirectory w = (None, w1)"
    "fs w1 (pathJoin [h, ''.ssh'']) = Some (Dir (mode 7 0 0))"
    using ensureSSHDirectory_creates by blast
  then have "ensureSSHDirectory w = (None, w1)
         \<and> nodeMode (fs w1 (pathJoin [h, ''.ssh''])) = Some (mode 7 0 0)"
    by (simp add: nodeMode_def)
  then show "\<exists>w1. ensureSSHDirectory w = (None, w1)
         \<and> nodeMode (fs w1 (pathJoin [h, ''.ssh''])) = Some (mode 7 0 0)" by blast
next
  assume "(toLower (trimSpace resp) = ''y'' \<or> toLower (trimSpace resp) = [])
        \<and> ensureSSHDirectory w = (None, w1) \<and> \<not> denied w1 (sshConfigPath w1)
        \<and> fs w1 (sshConfigPath w1) = None"
  then obtain w2 where "appendSSHConfig name keyPath resp w = (None, w2)"
    "fs w2 (sshConfigPath w1) = Some (File (mode 6 4 4) (sshConfigSnippet name keyPath))"
    using appendSSHConfig_appends [of resp w w1 name keyPath] by blast
  then have "appendSSHConfig name keyPath resp w = (None, w2)
           \<and> nodeMode (fs w2 (sshConfigPath w1)) = Some (mode 6 4 4)"
    by (simp add: nodeMode_def)
  then show "\<exists>w2. appendSSHConfig name keyPath resp w = (None, w2)
           \<and> nodeMode (fs w2 (sshConfigPath w1)) = Some (mode 6 4 4)" by blast
next
  show "mode 6 4 4 \<noteq> mode 6 0 0" by (simp add: mode_def)
qed

theorem ssh_directory_and_config_permissions_witness:
  "home exampleWorld = Some ''/home/u''
   \<and> fs exampleWorld (pathJoin [''/home/u'', ''.ssh'']) = None
   \<and> fst (ensureSSHDirectory exampleWorld) = None
   \<and> nodeMode (fs (snd (ensureSSHDirectory exampleWorld)) ''/home/u/.ssh'') = Some (mode 7 0 0)
   \<and> fst (appendSSHConfig ''work'' workKey ''y'' exampleWorld) = None
   \<and> nodeMode (fs (snd (appendSSHConfig ''work'' workKey ''y'' exampleWorld)) ''/home/u/.ssh/config'')
       = Some (mode 6 4 4)"
proof -
  let ?w1 = "snd (ensureSSHDirectory exampleWorld)"
  have h: "home exampleWorld = Some ''/home/u''" by (simp add: exampleWorld_def)
  have sp: "pathJoin [''/home/u'', ''.ssh''] = ''/home/u/.ssh''" by code_simp
  have nd: "\<not> denied exampleWorld (pathJoin [''/home/u'', ''.ssh''])"
    by (simp add: exampleWorld_def)
  have fr: "fs exampleWorld (pathJoin [''/home/u'', ''.ssh'']) = None"
    by (simp add: sp) (simp add: exampleWorld_def)
  note t1 = ssh_directory_and_config_permissions [where w = exampleWorld and h = "''/home/u''"]
  from t1 h nd fr have "\<exists>w1. ensureSSHDirectory exampleWorld = (None, w1)
      \<and> nodeMode (fs w1 (pathJoin [''/home/u'', ''.ssh''])) = Some (mode 7 0 0)"
    by blast
  then have 1: "fst (ensureSSHDirectory exampleWorld) = None
      \<and> nodeMode (fs ?w1 ''/home/u/.ssh'') = Some (mode 7 0 0)"
    by (auto simp: sp)
  then have d: "ensureSSHDirectory exampleWorld = (None, ?w1)" by (simp add: prod_eq_iff)
  have y: "toLower (trimSpace ''y'') = ''y''" by code_simp
  have cp: "sshConfigPath ?w1 = ''/home/u/.ssh/config''" by code_simp
  have nd1: "\<not> denied ?w1 (sshConfigPath ?w1)" by code_simp
  have f: "fs ?w1 (sshConfigPath ?w1) = None" by code_simp
  note t2 = ssh_directory_and_config_permissions
    [where w = exampleWorld and resp = "''y''" and ?w1.0 = ?w1 and name = "''work''"
       and keyPath = workKey]
  from t2 y d nd1 f have "\<exists>w2. appendSSHConfig ''work'' workKey ''y'' exampleWorld = (None, w2)
      \<and> nodeMode (fs w2 (sshConfigPath ?w1)) = Some (mode 6 4 4)"
    by blast
  then have 2: "fst (appendSSHConfig ''work'' workKey ''y'' exampleWorld) = None
      \<and> nodeMode (fs (snd (appendSSHConfig ''work'' workKey ''y'' exampleWorld)) ''/home/u/.ssh/config'')
          = Some (mode 6 4 4)"
    by (auto simp: cp)
  from h fr 1 2 show ?thesis by blast
qed

text \<open>
  The claim as stated fails: in an environment without SSH directory and SSH
  config, \<open>generateSSHKey\<close> creates the directory with mode 0700 and the config
  file with mode 0644, not 0600.
\<close>

theorem ssh_config_created_with_0644:
  "fs exampleWorld ''/home/u/.ssh'' = None
   \<and> fs exampleWorld ''/home/u/.ssh/config'' = None
   \<and> fst (generateSSHKey ''work'' ''me@work.com'' workKey ''y'' exampleWorld) = Inr ''ssh-ed25519 AAAA''
   \<and> sshConfigPath firstRun = ''/home/u/.ssh/config''
   \<and> nodeMode (fs firstRun ''/home/u/.ssh'') = Some (mode 7 0 0)
   \<and> nodeMode (fs firstRun ''/home/u/.ssh/config'') = Some (mode 6 4 4)
   \<and> nodeMode (fs firstRun ''/home/u/.ssh/config'') \<noteq> Some (mode 6 0 0)"
  by code_simp

end
